theory Spec2Isabelle
  imports Main
begin

section \<open>Strings\<close>

text \<open>
  A JavaScript string is modelled as a \<open>string\<close>: one \<open>char\<close> per code unit. The
  regular expressions of the source have no \<open>u\<close> flag, so they work code unit by code unit,
  as the functions below work \<open>char\<close> by \<open>char\<close>.
\<close>

definition startsWith :: "string \<Rightarrow> string \<Rightarrow> bool" where
  "startsWith s p = (take (length p) s = p)"

text \<open>\<open>Array.prototype.join\<close> on a list of strings.\<close>

fun join :: "string \<Rightarrow> string list \<Rightarrow> string" where
  "join sep [] = []"
| "join sep [x] = x"
| "join sep (x # y # ys) = x @ sep @ join sep (y # ys)"

text \<open>The character class \<open>[A-Za-z0-9._-]\<close> of \<open>sanitizeSegment\<close>.\<close>

definition segmentChars :: "char list" where
  "segmentChars = ''ABCDEFGHIJKLMNOPQRSTUVWXYZabcdefghijklmnopqrstuvwxyz0123456789._-''"

definition segmentChar :: "char \<Rightarrow> bool" where
  "segmentChar c = (c \<in> set segmentChars)"

text \<open>\<open>value.replace(/[^A-Za-z0-9._-]/g, '-')\<close>\<close>

definition sanitizeSegment :: "string \<Rightarrow> string" where
  "sanitizeSegment v = map (\<lambda>c. if segmentChar c then c else CHR ''-'') v"

text \<open>The separators of \<open>/[\\/]+/\<close>: a slash or a backslash.\<close>

definition isSeparator :: "char \<Rightarrow> bool" where
  "isSeparator c = (c = CHR ''/'' \<or> c = CHR 0x5C)"

text \<open>
  \<open>value.split(/[\\/]+/)\<close>: the pieces between maximal runs of separators. A string that
  starts (ends) with a separator has an empty first (last) piece, and the empty string
  splits into one empty piece.
\<close>

function splitRuns :: "(char \<Rightarrow> bool) \<Rightarrow> string \<Rightarrow> string list" where
  "splitRuns sep [] = [[]]"
| "splitRuns sep (c # cs) =
     (if sep c then [] # splitRuns sep (dropWhile sep cs)
      else (case splitRuns sep cs of
              [] \<Rightarrow> [[c]]
            | piece # pieces \<Rightarrow> (c # piece) # pieces))"
  by pat_completeness auto
termination
  by (relation "measure (\<lambda>(sep, s). length s)")
     (auto simp: length_dropWhile_le less_Suc_eq_le)

text \<open>\<open>.filter(Boolean)\<close> on strings keeps the non-empty ones.\<close>

definition filterBoolean :: "string list \<Rightarrow> string list" where
  "filterBoolean xs = filter (\<lambda>x. x \<noteq> []) xs"

definition normalizeTargetName :: "string \<Rightarrow> string" where
  "normalizeTargetName v =
     (let segments = filterBoolean (splitRuns isSeparator v)
      in if length segments = 0 then sanitizeSegment ''asset''
         else join ''/'' (map sanitizeSegment segments))"

text \<open>\<open>String.prototype.split('/')\<close>: one piece per separator, empty pieces kept.\<close>

fun splitChar :: "char \<Rightarrow> string \<Rightarrow> string list" where
  "splitChar d [] = [[]]"
| "splitChar d (c # cs) =
     (if c = d then [] # splitChar d cs
      else (case splitChar d cs of
              [] \<Rightarrow> [[c]]
            | piece # pieces \<Rightarrow> (c # piece) # pieces))"

section \<open>The build-time host\<close>

text \<open>
  What \<open>setup\<close> uses of Node and Bun and does not define: \<open>node:path\<close>, \<open>node:url\<close>,
  \<open>process.cwd()\<close>, \<open>Bun.file(p).exists()\<close> and \<open>import.meta.resolve\<close>. They are the
  fields of a record, so every theorem holds for any host. \<open>fileURLToPath\<close> and
  \<open>import.meta.resolve\<close> can throw and return \<open>Inl\<close> of \<open>String(err)\<close> then; the path
  functions and \<open>pathToFileURL\<close> do not throw on strings. The file system does not change
  while one asset is resolved.
\<close>

record host =
  process_cwd :: string
  path_isAbsolute :: "string \<Rightarrow> bool"
  path_normalize :: "string \<Rightarrow> string"
  path_resolve :: "string \<Rightarrow> string \<Rightarrow> string"
  path_dirname :: "string \<Rightarrow> string"
  path_basename :: "string \<Rightarrow> string"
  pathToFileURL :: "string \<Rightarrow> string"
  fileURLToPath :: "string \<Rightarrow> string + string"
  file_exists :: "string \<Rightarrow> bool"
  import_meta_resolve :: "string \<Rightarrow> string option \<Rightarrow> string + string"

text \<open>
  \<open>path.normalize\<close> never returns the empty string (it returns \<open>'.'\<close> for it), so a
  registered \<open>sourcePath\<close> is truthy.
\<close>

definition normalizeNonEmpty :: "host \<Rightarrow> bool" where
  "normalizeNonEmpty h = (\<forall>p. path_normalize h p \<noteq> [])"

section \<open>Resolving one asset\<close>

datatype AssetInput =
    Plain string
  | Obj string "string option" "string list option"

text \<open>\<open>typeof entry === 'string' ? entry : entry.specifier\<close>, and so on.\<close>

fun specifierOf :: "AssetInput \<Rightarrow> string" where
  "specifierOf (Plain s) = s"
| "specifierOf (Obj s t ks) = s"

fun targetNameOf :: "AssetInput \<Rightarrow> string option" where
  "targetNameOf (Plain s) = None"
| "targetNameOf (Obj s t ks) = t"

fun runtimeKeysOf :: "AssetInput \<Rightarrow> string list" where
  "runtimeKeysOf (Plain s) = []"
| "runtimeKeysOf (Obj s t ks) = (case ks of None \<Rightarrow> [] | Some l \<Rightarrow> l)"

record ResolvedAsset =
  ra_specifier :: string
  ra_sourcePath :: string
  ra_sourceUrl :: string
  ra_relativePath :: string
  ra_runtimeKeys :: "string list"

text \<open>The variables the closures of one loop iteration share.\<close>

record locals =
  attempted :: "string list"
  resolutionErrors :: "string list"
  sourcePath :: "string option"
  sourceUrl :: "string option"

definition initLocals :: locals where
  "initLocals = \<lparr>attempted = [], resolutionErrors = [], sourcePath = None, sourceUrl = None\<rparr>"

text \<open>\<open>!sourcePath\<close>: \<open>null\<close> and the empty string are falsy.\<close>

definition unset :: "string option \<Rightarrow> bool" where
  "unset v = (case v of None \<Rightarrow> True | Some p \<Rightarrow> p = [])"

definition toFilePath :: "host \<Rightarrow> string \<Rightarrow> string + string" where
  "toFilePath h resolved =
     (if startsWith resolved ''file://'' then fileURLToPath h resolved
      else Inr (if path_isAbsolute h resolved then resolved
                else path_resolve h (process_cwd h) resolved))"

definition registerMatch :: "host \<Rightarrow> string \<Rightarrow> string option \<Rightarrow> locals \<Rightarrow> locals" where
  "registerMatch h absolutePath url s =
     (let sp = path_normalize h absolutePath
      in s\<lparr>sourcePath := Some sp,
           sourceUrl := Some (case url of Some u \<Rightarrow> u | None \<Rightarrow> pathToFileURL h sp)\<rparr>)"

definition tryPath :: "host \<Rightarrow> string \<Rightarrow> locals \<Rightarrow> bool \<times> locals" where
  "tryPath h candidatePath s =
     (let normalized = path_normalize h candidatePath
      in if normalized \<in> set (attempted s) then (False, s)
         else (let s1 = s\<lparr>attempted := attempted s @ [normalized]\<rparr>
               in if file_exists h normalized then (True, registerMatch h normalized None s1)
                  else (False, s1)))"

definition tryUrl :: "host \<Rightarrow> string \<Rightarrow> locals \<Rightarrow> bool \<times> locals" where
  "tryUrl h candidateUrl s =
     (case toFilePath h candidateUrl of
        Inl err \<Rightarrow> (False, s\<lparr>resolutionErrors := resolutionErrors s @ [err]\<rparr>)
      | Inr filePath \<Rightarrow>
          (case tryPath h filePath s of
             (matched, s1) \<Rightarrow>
               (matched,
                if matched \<and> \<not> unset (sourcePath s1)
                then s1\<lparr>sourceUrl :=
                          Some (if startsWith candidateUrl ''file://'' then candidateUrl
                                else pathToFileURL h (the (sourcePath s1)))\<rparr>
                else s1)))"

text \<open>
  \<open>parentUrl ? import.meta.resolve(specifier, parentUrl) : import.meta.resolve(specifier)\<close>:
  an empty parent counts as none.
\<close>

definition attemptImportMetaResolve ::
    "host \<Rightarrow> string \<Rightarrow> string option \<Rightarrow> locals \<Rightarrow> bool \<times> locals" where
  "attemptImportMetaResolve h specifier parentUrl s =
     (case import_meta_resolve h specifier
             (case parentUrl of None \<Rightarrow> None | Some p \<Rightarrow> if p = [] then None else Some p) of
        Inl err \<Rightarrow> (False, s\<lparr>resolutionErrors := resolutionErrors s @ [err]\<rparr>)
      | Inr resolvedUrl \<Rightarrow> tryUrl h resolvedUrl s)"

text \<open>\<open>for (const dir of entrypointDirs) { if (await tryPath(...)) break; }\<close>\<close>

fun tryDirs :: "host \<Rightarrow> string \<Rightarrow> string list \<Rightarrow> locals \<Rightarrow> locals" where
  "tryDirs h specifier [] s = s"
| "tryDirs h specifier (dir # dirs) s =
     (case tryPath h (path_resolve h dir specifier) s of
        (matched, s1) \<Rightarrow> if matched then s1 else tryDirs h specifier dirs s1)"

text \<open>\<open>for (const parentUrl of entrypointUrlParents) { if (await attempt...) break; }\<close>\<close>

fun tryParents :: "host \<Rightarrow> string \<Rightarrow> string list \<Rightarrow> locals \<Rightarrow> locals" where
  "tryParents h specifier [] s = s"
| "tryParents h specifier (parentUrl # parents) s =
     (case attemptImportMetaResolve h specifier (Some parentUrl) s of
        (matched, s1) \<Rightarrow> if matched then s1 else tryParents h specifier parents s1)"

text \<open>The five \<open>if\<close> statements of lines 200 to 231, one definition each.\<close>

definition stepDirect :: "host \<Rightarrow> string \<Rightarrow> locals \<Rightarrow> locals" where
  "stepDirect h specifier s =
     (if startsWith specifier ''file://'' then snd (tryUrl h specifier s)
      else if path_isAbsolute h specifier then snd (tryPath h specifier s)
      else s)"

definition isRelative :: "string \<Rightarrow> bool" where
  "isRelative specifier = (startsWith specifier ''./'' \<or> startsWith specifier ''../'')"

definition stepRelative :: "host \<Rightarrow> string list \<Rightarrow> string \<Rightarrow> locals \<Rightarrow> locals" where
  "stepRelative h entrypointDirs specifier s =
     (if unset (sourcePath s) \<and> isRelative specifier
      then (let s1 = snd (tryPath h (path_resolve h (process_cwd h) specifier) s)
            in if unset (sourcePath s1) then tryDirs h specifier entrypointDirs s1 else s1)
      else s)"

definition stepParents :: "host \<Rightarrow> string list \<Rightarrow> string \<Rightarrow> locals \<Rightarrow> locals" where
  "stepParents h entrypointUrlParents specifier s =
     (if unset (sourcePath s) then tryParents h specifier entrypointUrlParents s else s)"

definition stepNoParent :: "host \<Rightarrow> string \<Rightarrow> locals \<Rightarrow> locals" where
  "stepNoParent h specifier s =
     (if unset (sourcePath s) then snd (attemptImportMetaResolve h specifier None s) else s)"

definition stepCwd :: "host \<Rightarrow> string \<Rightarrow> locals \<Rightarrow> locals" where
  "stepCwd h specifier s =
     (if unset (sourcePath s)
         \<and> \<not> (startsWith specifier ''file://'' \<or> path_isAbsolute h specifier)
      then snd (tryPath h (path_resolve h (process_cwd h) specifier) s)
      else s)"

definition resolveChain :: "host \<Rightarrow> string list \<Rightarrow> string list \<Rightarrow> string \<Rightarrow> locals" where
  "resolveChain h entrypointDirs entrypointUrlParents specifier =
     stepCwd h specifier
       (stepNoParent h specifier
         (stepParents h entrypointUrlParents specifier
           (stepRelative h entrypointDirs specifier
             (stepDirect h specifier initLocals))))"

text \<open>The message of the \<open>Error\<close> thrown when \<open>sourcePath\<close> is still unset.\<close>

definition resolutionSummary :: "locals \<Rightarrow> string" where
  "resolutionSummary s =
     (if length (attempted s) > 0 then [CHR 0x0A] @ ''Checked: '' @ join '', '' (attempted s)
      else [])"

definition errorSummary :: "locals \<Rightarrow> string" where
  "errorSummary s =
     (if length (resolutionErrors s) > 0
      then [CHR 0x0A] @ ''Resolver errors: '' @ join ''; '' (resolutionErrors s)
      else [])"

definition notFoundMessage :: "string \<Rightarrow> locals \<Rightarrow> string" where
  "notFoundMessage specifier s =
     ''bundleAssetsPlugin could not locate asset '' @ [CHR 0x22] @ specifier @ [CHR 0x22]
       @ ''.'' @ resolutionSummary s @ errorSummary s"

datatype error = Error string

text \<open>
  \<open>relativePath\<close>: \<open>targetName !== undefined ? normalizeTargetName(targetName)
  : sanitizeSegment(baseName || specifier)\<close>, \<open>baseName\<close> being \<open>path.basename(sourcePath)\<close>
  when there is no target name.
\<close>

definition relativePathOf :: "host \<Rightarrow> string option \<Rightarrow> string \<Rightarrow> string \<Rightarrow> string" where
  "relativePathOf h targetName sp specifier =
     (case targetName of
        Some t \<Rightarrow> normalizeTargetName t
      | None \<Rightarrow>
          (let baseName = path_basename h sp
           in sanitizeSegment (if baseName \<noteq> [] then baseName else specifier)))"

text \<open>One iteration of \<open>for (const entry of assets)\<close>: the asset pushed, or the error thrown.\<close>

definition resolveEntry ::
    "host \<Rightarrow> string list \<Rightarrow> string list \<Rightarrow> AssetInput \<Rightarrow> error + ResolvedAsset" where
  "resolveEntry h entrypointDirs entrypointUrlParents entry =
     (let specifier = specifierOf entry;
          targetName = targetNameOf entry;
          s = resolveChain h entrypointDirs entrypointUrlParents specifier
      in if unset (sourcePath s) then Inl (Error (notFoundMessage specifier s))
         else (let sp = the (sourcePath s)
               in Inr \<lparr>ra_specifier = specifier,
                       ra_sourcePath = sp,
                       ra_sourceUrl = (case sourceUrl s of Some u \<Rightarrow> u
                                       | None \<Rightarrow> pathToFileURL h sp),
                       ra_relativePath = relativePathOf h targetName sp specifier,
                       ra_runtimeKeys = runtimeKeysOf entry\<rparr>))"

text \<open>
  The entrypoints of the build configuration, as \<open>setup\<close> derives their absolute paths,
  directories and parent URLs.
\<close>

definition entrypointAbsPaths :: "host \<Rightarrow> string list \<Rightarrow> string list" where
  "entrypointAbsPaths h configuredEntrypoints =
     map (\<lambda>entry. path_resolve h (process_cwd h) entry) configuredEntrypoints"

definition entrypointDirsOf :: "host \<Rightarrow> string list \<Rightarrow> string list" where
  "entrypointDirsOf h configuredEntrypoints =
     map (path_dirname h) (entrypointAbsPaths h configuredEntrypoints)"

definition entrypointUrlParentsOf :: "host \<Rightarrow> string list \<Rightarrow> string list" where
  "entrypointUrlParentsOf h configuredEntrypoints =
     map (pathToFileURL h) (entrypointAbsPaths h configuredEntrypoints)"

text \<open>The loop over \<open>assets\<close>: the first asset that is not found aborts the build.\<close>

fun resolveAssets ::
    "host \<Rightarrow> string list \<Rightarrow> string list \<Rightarrow> AssetInput list \<Rightarrow> error + ResolvedAsset list" where
  "resolveAssets h dirs parents [] = Inr []"
| "resolveAssets h dirs parents (entry # entries) =
     (case resolveEntry h dirs parents entry of
        Inl e \<Rightarrow> Inl e
      | Inr a \<Rightarrow> (case resolveAssets h dirs parents entries of
                    Inl e \<Rightarrow> Inl e
                  | Inr as \<Rightarrow> Inr (a # as)))"

text \<open>The key list of one manifest entry (lines 284 to 305; the compile literal repeats it).\<close>

definition setAdd :: "'a \<Rightarrow> 'a list \<Rightarrow> 'a list" where
  "setAdd x xs = (if x \<in> set xs then xs else xs @ [x])"

text \<open>\<open>Array.from(new Set(xs))\<close>: the first occurrence of each element, in order.\<close>

definition arrayFromSet :: "'a list \<Rightarrow> 'a list" where
  "arrayFromSet xs = foldl (\<lambda>acc x. setAdd x acc) [] xs"

text \<open>\<open>key.replace(/^\.\//, '')\<close>\<close>

definition stripDotSlash :: "string \<Rightarrow> string" where
  "stripDotSlash key = (if startsWith key ''./'' then drop 2 key else key)"

definition bunfsKeys :: "string list \<Rightarrow> string list" where
  "bunfsKeys keys =
     concat (map (\<lambda>key. (let normalized = stripDotSlash key
                          in [''file:///$bunfs/root/'' @ normalized,
                              ''/$bunfs/root/'' @ normalized]))
                 (filter (\<lambda>key. startsWith key ''./'') keys))"

record manifestEntry =
  me_specifier :: string
  me_relativePath :: string
  me_keys :: "string list"

definition manifestEntryOf :: "ResolvedAsset \<Rightarrow> manifestEntry" where
  "manifestEntryOf asset =
     \<lparr>me_specifier = ra_specifier asset,
      me_relativePath = ra_relativePath asset,
      me_keys = arrayFromSet (filterBoolean
                  (ra_runtimeKeys asset @ bunfsKeys (ra_runtimeKeys asset)
                   @ [ra_specifier asset, ra_sourcePath asset, ra_sourceUrl asset]))\<rparr>"

section \<open>The resolution order as a list of attempts\<close>

text \<open>
  One attempt of the chain: an existence test of a path (\<open>tryPath\<close>), of the path of a URL
  (\<open>tryUrl\<close>), or a call of \<open>import.meta.resolve\<close> with or without a parent
  (\<open>attemptImportMetaResolve\<close>).
\<close>

datatype attempt = ByPath string | ByUrl string | ByResolver "string option"

fun runAttempt :: "host \<Rightarrow> string \<Rightarrow> attempt \<Rightarrow> locals \<Rightarrow> bool \<times> locals" where
  "runAttempt h specifier (ByPath p) s = tryPath h p s"
| "runAttempt h specifier (ByUrl u) s = tryUrl h u s"
| "runAttempt h specifier (ByResolver parent) s = attemptImportMetaResolve h specifier parent s"

text \<open>Attempts made in order, stopping at the first that matches.\<close>

fun firstMatch :: "host \<Rightarrow> string \<Rightarrow> attempt list \<Rightarrow> locals \<Rightarrow> locals" where
  "firstMatch h specifier [] s = s"
| "firstMatch h specifier (a # as) s =
     (case runAttempt h specifier a s of
        (matched, s1) \<Rightarrow> if matched then s1 else firstMatch h specifier as s1)"

definition guarded :: "host \<Rightarrow> string \<Rightarrow> attempt list \<Rightarrow> locals \<Rightarrow> locals" where
  "guarded h specifier as s = (if unset (sourcePath s) then firstMatch h specifier as s else s)"

definition directAttempts :: "host \<Rightarrow> string \<Rightarrow> attempt list" where
  "directAttempts h specifier =
     (if startsWith specifier ''file://'' then [ByUrl specifier]
      else if path_isAbsolute h specifier then [ByPath specifier]
      else [])"

definition relativeAttempts :: "host \<Rightarrow> string list \<Rightarrow> string \<Rightarrow> attempt list" where
  "relativeAttempts h entrypointDirs specifier =
     (if isRelative specifier
      then ByPath (path_resolve h (process_cwd h) specifier)
           # map (\<lambda>dir. ByPath (path_resolve h dir specifier)) entrypointDirs
      else [])"

definition resolverAttempts :: "string list \<Rightarrow> attempt list" where
  "resolverAttempts entrypointUrlParents =
     map (\<lambda>parentUrl. ByResolver (Some parentUrl)) entrypointUrlParents @ [ByResolver None]"

definition cwdAttempts :: "host \<Rightarrow> string \<Rightarrow> attempt list" where
  "cwdAttempts h specifier =
     (if \<not> (startsWith specifier ''file://'' \<or> path_isAbsolute h specifier)
      then [ByPath (path_resolve h (process_cwd h) specifier)]
      else [])"

text \<open>
  The order the code follows: the resolver attempts are made for every specifier that is
  still unresolved, whatever its form.
\<close>

definition strategies :: "host \<Rightarrow> string list \<Rightarrow> string list \<Rightarrow> string \<Rightarrow> attempt list" where
  "strategies h entrypointDirs entrypointUrlParents specifier =
     directAttempts h specifier
     @ relativeAttempts h entrypointDirs specifier
     @ resolverAttempts entrypointUrlParents
     @ cwdAttempts h specifier"

text \<open>
  The order as the specification words it: the resolver is tried only for a bare specifier
  (not a URL, not absolute, not relative).
\<close>

definition strategiesAsClaimed ::
    "host \<Rightarrow> string list \<Rightarrow> string list \<Rightarrow> string \<Rightarrow> attempt list" where
  "strategiesAsClaimed h entrypointDirs entrypointUrlParents specifier =
     (if startsWith specifier ''file://'' then [ByUrl specifier]
      else if path_isAbsolute h specifier then [ByPath specifier]
      else if isRelative specifier
      then ByPath (path_resolve h (process_cwd h) specifier)
           # map (\<lambda>dir. ByPath (path_resolve h dir specifier)) entrypointDirs
      else resolverAttempts entrypointUrlParents)
     @ cwdAttempts h specifier"

text \<open>What an attempt leaves behind when it does not match: a checked path or an error.\<close>

definition urlRecorded :: "host \<Rightarrow> locals \<Rightarrow> string \<Rightarrow> bool" where
  "urlRecorded h s u =
     (case toFilePath h u of
        Inl err \<Rightarrow> err \<in> set (resolutionErrors s)
      | Inr p \<Rightarrow> path_normalize h p \<in> set (attempted s))"

fun recorded :: "host \<Rightarrow> string \<Rightarrow> locals \<Rightarrow> attempt \<Rightarrow> bool" where
  "recorded h specifier s (ByPath p) = (path_normalize h p \<in> set (attempted s))"
| "recorded h specifier s (ByUrl u) = urlRecorded h s u"
| "recorded h specifier s (ByResolver parent) =
     (case import_meta_resolve h specifier
             (case parent of None \<Rightarrow> None | Some p \<Rightarrow> if p = [] then None else Some p) of
        Inl err \<Rightarrow> err \<in> set (resolutionErrors s)
      | Inr u \<Rightarrow> urlRecorded h s u)"

definition grows :: "locals \<Rightarrow> locals \<Rightarrow> bool" where
  "grows s s' = (set (attempted s) \<subseteq> set (attempted s')
               \<and> set (resolutionErrors s) \<subseteq> set (resolutionErrors s')
               \<and> (distinct (attempted s) \<longrightarrow> distinct (attempted s')))"

text \<open>
  A small host for the examples: POSIX paths that are already normal, the files of a list,
  and a module table for \<open>import.meta.resolve\<close>.
\<close>

definition demoHost :: "string list \<Rightarrow> (string \<times> string) list \<Rightarrow> host" where
  "demoHost files modules =
     \<lparr>process_cwd = ''/proj'',
      path_isAbsolute = (\<lambda>p. startsWith p ''/''),
      path_normalize = (\<lambda>p. if p = [] then ''.'' else p),
      path_resolve = (\<lambda>base p. if startsWith p ''/'' then p
                                 else base @ ''/'' @ (if startsWith p ''./'' then drop 2 p else p)),
      path_dirname = (\<lambda>p. join ''/'' (butlast (splitChar (CHR ''/'') p))),
      path_basename = (\<lambda>p. last (splitChar (CHR ''/'') p)),
      pathToFileURL = (\<lambda>p. ''file://'' @ p),
      fileURLToPath = (\<lambda>u. if startsWith u ''file:///'' then Inr (drop 7 u)
                              else Inl ''TypeError: The URL must be of scheme file''),
      file_exists = (\<lambda>p. p \<in> set files),
      import_meta_resolve = (\<lambda>specifier parent.
         case map_of modules specifier of
           Some u \<Rightarrow> Inr u
         | None \<Rightarrow> Inl (''ResolveMessage: Cannot find module '' @ specifier))\<rparr>"

section \<open>The injected block: the run-time host\<close>

text \<open>
  The block that \<open>setup\<close> generates runs in the built program. What it uses of Node:
  \<open>node:path\<close>, \<open>node:url\<close>, \<open>new URL(u).pathname\<close> and \<open>Buffer.from(d, "base64")\<close>.
  The calls the block wraps in \<open>try\<close> may throw and return \<open>Inl\<close> then.
\<close>

record rhost =
  runtimeDir :: string
  rt_isAbsolute :: "string \<Rightarrow> bool"
  rt_resolve :: "string \<Rightarrow> string \<Rightarrow> string"
  rt_join :: "string \<Rightarrow> string list \<Rightarrow> string"
  rt_dirname :: "string \<Rightarrow> string"
  rt_pathToFileURL :: "string \<Rightarrow> string + string"
  rt_fileURLToPath :: "string \<Rightarrow> string + string"
  rt_urlPathname :: "string \<Rightarrow> string + string"
  rt_decodeBase64 :: "string \<Rightarrow> string"

text \<open>
  A JavaScript value, as far as the block tells values apart: a string, \<open>undefined\<close>,
  a thenable, and anything else. A thenable is a promise of the host (numbered),
  \<open>Promise.resolve(v)\<close>, or the promise \<open>p.then(...).catch(...)\<close> that a wrapper builds
  for a specifier from a thenable \<open>p\<close>.
\<close>

datatype jsval =
    JString string
  | JUndefined
  | JOther nat
  | JPromise nat
  | JResolved jsval
  | JThenCatch jsval jsval

text \<open>
  \<open>overrides\<close>, the object the block fills: its own properties in the order they were
  set. \<open>hasOwn(overrides, k)\<close> is \<open>map_of overrides k \<noteq> None\<close>. The keys and values come
  from the manifest literal and are strings.
\<close>

type_synonym overrides = "(string \<times> string) list"

text \<open>The table under \<open>globalThis[globalKey]\<close>: the own properties of the object.\<close>

type_synonym table = "string \<rightharpoonup> jsval"

section \<open>registerKey and registerAll\<close>

text \<open>\<open>addVariant\<close>: a non-empty string joins the set \<open>variants\<close>.\<close>

definition addVariant :: "string \<Rightarrow> string list \<Rightarrow> string list" where
  "addVariant candidate variants =
     (if length candidate > 0 then setAdd candidate variants else variants)"

text \<open>The set \<open>variants\<close> of \<open>registerKey\<close> when its loop starts, in insertion order.\<close>

definition keyVariants :: "rhost \<Rightarrow> string \<Rightarrow> string list" where
  "keyVariants h key =
     (let variants = [key]
      in if startsWith key ''file://''
         then (case rt_fileURLToPath h key of
                 Inr p \<Rightarrow> addVariant p variants
               | Inl err \<Rightarrow> variants)
         else if startsWith key ''/$bunfs/root/''
         then addVariant (''file://'' @ key) variants
         else if rt_isAbsolute h key
         then (case rt_pathToFileURL h key of
                 Inr href \<Rightarrow> addVariant href variants
               | Inl err \<Rightarrow> variants)
         else if startsWith key ''./'' \<or> startsWith key ''../''
         then (let absoluteFromRuntime = rt_resolve h (runtimeDir h) key;
                   v1 = addVariant absoluteFromRuntime variants;
                   v2 = (case rt_pathToFileURL h absoluteFromRuntime of
                           Inr href \<Rightarrow> addVariant href v1
                         | Inl err \<Rightarrow> v1)
               in if startsWith key ''./''
                  then (let trimmed = drop 2 key
                        in addVariant (''file:///$bunfs/root/'' @ trimmed)
                             (addVariant (''/$bunfs/root/'' @ trimmed) v2))
                  else v2)
         else variants)"

text \<open>\<open>if (!hasOwn(overrides, variant)) { overrides[variant] = value; }\<close>\<close>

definition setIfAbsent :: "string \<Rightarrow> overrides \<Rightarrow> string \<Rightarrow> overrides" where
  "setIfAbsent v ov variant =
     (if map_of ov variant = None then ov @ [(variant, v)] else ov)"

definition registerKey :: "rhost \<Rightarrow> string \<Rightarrow> string \<Rightarrow> overrides \<Rightarrow> overrides" where
  "registerKey h key v ov =
     (if length key = 0 then ov
      else foldl (setIfAbsent v) ov (keyVariants h key))"

definition registerAll :: "rhost \<Rightarrow> string list \<Rightarrow> string \<Rightarrow> overrides \<Rightarrow> overrides" where
  "registerAll h keys v ov =
     (let o1 = registerKey h v v ov;
          o2 = (case rt_pathToFileURL h v of
                  Inr href \<Rightarrow> registerKey h href v o1
                | Inl err \<Rightarrow> o1)
      in foldl (\<lambda>acc key. registerKey h key v acc) o2 keys)"

text \<open>
  \<open>for (const asset of entries) { registerAll(asset.keys, outputPath); }\<close>, the output
  path being a function of the entry: \<open>path.resolve(runtimeDir, asset.relativePath)\<close>
  in a bundle, \<open>path.join(cacheDir, ...asset.relativePath.split("/"))\<close> in a compiled
  program.
\<close>

definition registerEntries ::
    "rhost \<Rightarrow> (manifestEntry \<Rightarrow> string) \<Rightarrow> manifestEntry list \<Rightarrow> overrides \<Rightarrow> overrides" where
  "registerEntries h outputPath entries ov =
     foldl (\<lambda>acc asset. registerAll h (me_keys asset) (outputPath asset) acc) ov entries"

definition bundleOutputPath :: "rhost \<Rightarrow> manifestEntry \<Rightarrow> string" where
  "bundleOutputPath h asset = rt_resolve h (runtimeDir h) (me_relativePath asset)"

definition cacheOutputPath :: "rhost \<Rightarrow> string \<Rightarrow> manifestEntry \<Rightarrow> string" where
  "cacheOutputPath h cacheDir asset =
     rt_join h cacheDir (splitChar (CHR ''/'') (me_relativePath asset))"

text \<open>Every key one \<open>registerAll\<close> call offers to the table, in order.\<close>

definition offeredBy :: "rhost \<Rightarrow> string \<Rightarrow> string list" where
  "offeredBy h key = (if length key = 0 then [] else keyVariants h key)"


section \<open>Merging into the global table\<close>

text \<open>
  \<open>current && typeof current === "object" ? current : Object.create(null)\<close>, then
  \<open>target[key] = overrides[key]\<close> for every key of \<open>overrides\<close>. The global is \<open>None\<close>
  when it is absent or not an object.
\<close>

definition mergeOverrides :: "table option \<Rightarrow> overrides \<Rightarrow> table" where
  "mergeOverrides current ov =
     foldl (\<lambda>target key. target(key \<mapsto> (case map_of ov key of
                                            Some v \<Rightarrow> JString v
                                          | None \<Rightarrow> JUndefined)))
           (case current of Some t \<Rightarrow> t | None \<Rightarrow> Map.empty)
           (map fst ov)"

section \<open>findOverride and applyOverride\<close>

definition hasOwnGet :: "table \<Rightarrow> string \<Rightarrow> jsval" where
  "hasOwnGet t k = (case t k of Some v \<Rightarrow> v | None \<Rightarrow> JUndefined)"

definition findOverride :: "rhost \<Rightarrow> table option \<Rightarrow> jsval \<Rightarrow> jsval" where
  "findOverride h global key =
     (case key of
        JString k \<Rightarrow>
          if length k = 0 then JUndefined
          else (case global of
                  None \<Rightarrow> JUndefined
                | Some t \<Rightarrow>
                    if t k \<noteq> None then hasOwnGet t k
                    else if startsWith k ''file://''
                    then (case rt_fileURLToPath h k of
                            Inr fsPath \<Rightarrow> hasOwnGet t fsPath
                          | Inl err \<Rightarrow> JUndefined)
                    else if rt_isAbsolute h k
                    then (case rt_pathToFileURL h k of
                            Inr asUrl \<Rightarrow> hasOwnGet t asUrl
                          | Inl err \<Rightarrow> JUndefined)
                    else if startsWith k ''/$bunfs/root/''
                    then hasOwnGet t (''file://'' @ k)
                    else JUndefined)
      | _ \<Rightarrow> JUndefined)"

text \<open>\<open>typeof v === "string"\<close>\<close>

fun isString :: "jsval \<Rightarrow> bool" where
  "isString (JString s) = True"
| "isString _ = False"

definition applyOverride :: "rhost \<Rightarrow> table option \<Rightarrow> jsval \<Rightarrow> jsval \<Rightarrow> jsval" where
  "applyOverride h global specifier resolved =
     (let bySpecifier = findOverride h global specifier
      in if isString bySpecifier then bySpecifier
         else if isString resolved
         then (let byResolved = findOverride h global resolved
               in if isString byResolved then byResolved else resolved)
         else resolved)"

section \<open>The patched resolvers\<close>

text \<open>
  A resolver works on a world \<open>'w\<close> (the process: the global table, the file system, a
  call log) and either throws (\<open>Inl\<close>) or returns a value (\<open>Inr\<close>), maybe a thenable.
  \<open>tableOf\<close> reads \<open>globalThis[globalKey]\<close> in a world.
\<close>

type_synonym 'w resolver = "jsval \<Rightarrow> jsval \<Rightarrow> 'w \<Rightarrow> (jsval + jsval) \<times> 'w"

text \<open>
  The wrapper of \<open>Bun.resolveSync\<close>. Its \<open>catch\<close> clause returns the fallback, or throws
  the error again.
\<close>

definition patchedResolveSync ::
    "rhost \<Rightarrow> ('w \<Rightarrow> table option) \<Rightarrow> 'w resolver \<Rightarrow> 'w resolver" where
  "patchedResolveSync h tableOf originalResolveSync specifier options w =
     (let direct = findOverride h (tableOf w) specifier
      in if isString direct then (Inr direct, w)
         else (case originalResolveSync specifier options w of
                 (Inr result, w1) \<Rightarrow> (Inr (applyOverride h (tableOf w1) specifier result), w1)
               | (Inl err, w1) \<Rightarrow>
                   (let fallback = findOverride h (tableOf w1) specifier
                    in if isString fallback then (Inr fallback, w1) else (Inl err, w1))))"

text \<open>\<open>result && typeof result.then === "function"\<close>\<close>

fun isThenable :: "jsval \<Rightarrow> bool" where
  "isThenable (JPromise n) = True"
| "isThenable (JResolved v) = True"
| "isThenable (JThenCatch specifier p) = True"
| "isThenable v = False"

text \<open>
  The two callbacks of \<open>result.then(output => applyOverride(specifier, output))
  .catch(err => ...)\<close>, for a \<open>result\<close> that fulfils (\<open>True\<close>) or rejects with \<open>v\<close>: the
  settlement of the promise the wrapper returns. The callback that runs reads
  \<open>globalThis[globalKey]\<close> when it runs; \<open>global\<close> is the table at that moment.
\<close>

definition thenApplyCatch ::
    "rhost \<Rightarrow> table option \<Rightarrow> jsval \<Rightarrow> bool \<times> jsval \<Rightarrow> bool \<times> jsval" where
  "thenApplyCatch h global specifier settled =
     (case settled of
        (fulfilled, v) \<Rightarrow>
          if fulfilled then (True, applyOverride h global specifier v)
          else (let fallback = findOverride h global specifier
                in if isString fallback then (True, fallback) else (False, v)))"

text \<open>
  How a thenable settles, \<open>None\<close> when it never does or is no thenable. \<open>host n\<close> is the
  settlement of the host's promise \<open>n\<close>. The list gives, for each
  \<open>.then(...).catch(...)\<close> from the outermost inwards, \<open>globalThis[globalKey]\<close> at the
  moment its callback runs, which is after the promise it hangs on has settled.
\<close>

fun settle ::
    "rhost \<Rightarrow> (nat \<Rightarrow> (bool \<times> jsval) option) \<Rightarrow> table option list \<Rightarrow> jsval
       \<Rightarrow> (bool \<times> jsval) option" where
  "settle h host tables (JPromise n) = host n"
| "settle h host tables (JResolved v) = Some (True, v)"
| "settle h host tables (JThenCatch specifier p) =
     (case tables of
        [] \<Rightarrow> None
      | global # rest \<Rightarrow>
          (case settle h host rest p of
             None \<Rightarrow> None
           | Some settled \<Rightarrow> Some (thenApplyCatch h global specifier settled)))"
| "settle h host tables v = None"

text \<open>The wrapper of \<open>Bun.resolve\<close>: a direct hit is wrapped in \<open>Promise.resolve\<close>.\<close>

definition patchedAsync ::
    "rhost \<Rightarrow> ('w \<Rightarrow> table option) \<Rightarrow> 'w resolver \<Rightarrow> 'w resolver" where
  "patchedAsync h tableOf originalResolve specifier options w =
     (let direct = findOverride h (tableOf w) specifier
      in if isString direct then (Inr (JResolved direct), w)
         else (case originalResolve specifier options w of
                 (Inr result, w1) \<Rightarrow>
                   if isThenable result then (Inr (JThenCatch specifier result), w1)
                   else (Inr (applyOverride h (tableOf w1) specifier result), w1)
               | (Inl err, w1) \<Rightarrow>
                   (let fallback = findOverride h (tableOf w1) specifier
                    in if isString fallback then (Inr fallback, w1) else (Inl err, w1))))"

text \<open>The wrapper of \<open>import.meta.resolve\<close>: a direct hit is returned as it is.\<close>

definition patchedMetaResolve ::
    "rhost \<Rightarrow> ('w \<Rightarrow> table option) \<Rightarrow> 'w resolver \<Rightarrow> 'w resolver" where
  "patchedMetaResolve h tableOf originalMetaResolve specifier parent w =
     (let direct = findOverride h (tableOf w) specifier
      in if isString direct then (Inr direct, w)
         else (case originalMetaResolve specifier parent w of
                 (Inr result, w1) \<Rightarrow>
                   if isThenable result then (Inr (JThenCatch specifier result), w1)
                   else (Inr (applyOverride h (tableOf w1) specifier result), w1)
               | (Inl err, w1) \<Rightarrow>
                   (let fallback = findOverride h (tableOf w1) specifier
                    in if isString fallback then (Inr fallback, w1) else (Inl err, w1))))"

text \<open>
  A wrapper as the specification words it: after the original has yielded a value, only
  that value is looked up.
\<close>

definition patchedAsClaimed ::
    "rhost \<Rightarrow> ('w \<Rightarrow> table option) \<Rightarrow> 'w resolver \<Rightarrow> 'w resolver" where
  "patchedAsClaimed h tableOf original specifier options w =
     (let direct = findOverride h (tableOf w) specifier
      in if isString direct then (Inr direct, w)
         else (case original specifier options w of
                 (Inr result, w1) \<Rightarrow>
                   (Inr (if isString result \<and> isString (findOverride h (tableOf w1) result)
                         then findOverride h (tableOf w1) result else result), w1)
               | (Inl err, w1) \<Rightarrow>
                   (let fallback = findOverride h (tableOf w1) specifier
                    in if isString fallback then (Inr fallback, w1) else (Inl err, w1))))"

section \<open>Installing the patches\<close>

text \<open>
  A function object as the guard of \<open>installResolvers\<close> sees it: a function of the host
  (numbered, with the value of its \<open>__bundleAssetsPatched\<close> property), or one of the three
  wrappers around the function it captured. A wrapper carries the marker.
\<close>

datatype fnval =
    Native nat bool
  | PatchedSync fnval
  | PatchedAsync fnval
  | PatchedMeta fnval

fun bundleAssetsPatched :: "fnval \<Rightarrow> bool" where
  "bundleAssetsPatched (Native n marked) = marked"
| "bundleAssetsPatched (PatchedSync f) = True"
| "bundleAssetsPatched (PatchedAsync f) = True"
| "bundleAssetsPatched (PatchedMeta f) = True"

text \<open>How many wrappers of the block a function is inside.\<close>

fun wrappers :: "fnval \<Rightarrow> nat" where
  "wrappers (Native n marked) = 0"
| "wrappers (PatchedSync f) = Suc (wrappers f)"
| "wrappers (PatchedAsync f) = Suc (wrappers f)"
| "wrappers (PatchedMeta f) = Suc (wrappers f)"

text \<open>\<open>Bun\<close>: a property is \<open>None\<close> when it is not a function.\<close>

record bunObject =
  bun_resolveSync :: "fnval option"
  bun_resolve :: "fnval option"

text \<open>
  \<open>import.meta\<close> of a module: \<open>resolve\<close>, whether assigning it succeeds, and whether
  \<open>Object.defineProperty\<close> on it succeeds.
\<close>

record metaObject =
  meta_resolve :: "fnval option"
  meta_assignable :: bool
  meta_definable :: bool

text \<open>
  The process-wide state the block reads and writes: \<open>globalThis[globalKey]\<close>,
  \<open>globalThis.__bundleAssetsResolversInstalled\<close>, \<open>globalThis.Bun\<close>, and \<open>import.meta\<close> of
  each module (\<open>None\<close> where it is missing or reading it throws).
\<close>

record runtime =
  globalTable :: "table option"
  resolversInstalled :: bool
  globalBun :: "bunObject option"
  importMeta :: "nat \<Rightarrow> metaObject option"

definition patchResolveSync :: "runtime \<Rightarrow> runtime" where
  "patchResolveSync rt =
     (case globalBun rt of
        None \<Rightarrow> rt
      | Some bun \<Rightarrow>
          (case bun_resolveSync bun of
             None \<Rightarrow> rt
           | Some f \<Rightarrow>
               if \<not> bundleAssetsPatched f
               then rt\<lparr>globalBun := Some (bun\<lparr>bun_resolveSync := Some (PatchedSync f)\<rparr>)\<rparr>
               else rt))"

definition patchResolve :: "runtime \<Rightarrow> runtime" where
  "patchResolve rt =
     (case globalBun rt of
        None \<Rightarrow> rt
      | Some bun \<Rightarrow>
          (case bun_resolve bun of
             None \<Rightarrow> rt
           | Some f \<Rightarrow>
               if \<not> bundleAssetsPatched f
               then rt\<lparr>globalBun := Some (bun\<lparr>bun_resolve := Some (PatchedAsync f)\<rparr>)\<rparr>
               else rt))"

text \<open>
  The \<open>try\<close> around \<open>import.meta\<close>: the assignment, else \<open>Object.defineProperty\<close>, else
  nothing.
\<close>

definition patchMeta :: "nat \<Rightarrow> runtime \<Rightarrow> runtime" where
  "patchMeta m rt =
     (case importMeta rt m of
        None \<Rightarrow> rt
      | Some meta \<Rightarrow>
          (case meta_resolve meta of
             None \<Rightarrow> rt
           | Some f \<Rightarrow>
               if \<not> bundleAssetsPatched f
               then (if meta_assignable meta \<or> meta_definable meta
                     then rt\<lparr>importMeta := (importMeta rt)
                                (m := Some (meta\<lparr>meta_resolve := Some (PatchedMeta f)\<rparr>))\<rparr>
                     else rt)
               else rt))"

text \<open>\<open>installResolvers\<close>, called by the block of module \<open>m\<close>.\<close>

definition installResolvers :: "nat \<Rightarrow> runtime \<Rightarrow> runtime" where
  "installResolvers m rt =
     (if resolversInstalled rt then rt
      else (patchMeta m (patchResolve (patchResolveSync rt)))\<lparr>resolversInstalled := True\<rparr>)"

text \<open>
  The block of a bundle (not compiled), injected into module \<open>m\<close>: fill \<open>overrides\<close> from
  the entries, merge into the global table, install the resolvers. The helper function
  the block may also define is not modelled.
\<close>

definition runBlock :: "rhost \<Rightarrow> nat \<Rightarrow> manifestEntry list \<Rightarrow> runtime \<Rightarrow> runtime" where
  "runBlock h m entries rt =
     (let ov = registerEntries h (bundleOutputPath h) entries []
      in installResolvers m (rt\<lparr>globalTable := Some (mergeOverrides (globalTable rt) ov)\<rparr>))"

text \<open>Several blocks in one process, in the order they run: (host, module, entries) each.\<close>

fun runBlocks :: "(rhost \<times> nat \<times> manifestEntry list) list \<Rightarrow> runtime \<Rightarrow> runtime" where
  "runBlocks [] rt = rt"
| "runBlocks ((h, m, entries) # blocks) rt = runBlocks blocks (runBlock h m entries rt)"

section \<open>Extraction in a compiled program\<close>

text \<open>
  \<open>node:fs\<close> over a file system \<open>'fs\<close>. \<open>existsSync\<close> never throws; \<open>mkdirSync\<close> and
  \<open>writeFileSync\<close> return the error they throw, if any, and the file system they leave.
\<close>

record 'fs fsops =
  fs_existsSync :: "'fs \<Rightarrow> string \<Rightarrow> bool"
  fs_mkdirSync :: "string \<Rightarrow> 'fs \<Rightarrow> string option \<times> 'fs"
  fs_writeFileSync :: "string \<Rightarrow> string \<Rightarrow> 'fs \<Rightarrow> string option \<times> 'fs"

text \<open>
  A statement: from a state to the exception it throws, if any, and the state it leaves.
\<close>

type_synonym 'st stmt = "'st \<Rightarrow> string option \<times> 'st"

definition skip :: "'st stmt" where
  "skip s = (None, s)"

text \<open>\<open>a; b\<close>: an exception of \<open>a\<close> skips \<open>b\<close>.\<close>

definition seq :: "'st stmt \<Rightarrow> 'st stmt \<Rightarrow> 'st stmt" where
  "seq a b s = (case a s of (None, s1) \<Rightarrow> b s1 | (Some err, s1) \<Rightarrow> (Some err, s1))"

text \<open>\<open>try { a } catch (err) { /* ignore */ }\<close>\<close>

definition tryIgnore :: "'st stmt \<Rightarrow> 'st stmt" where
  "tryIgnore a s = (case a s of (r, s1) \<Rightarrow> (None, s1))"

text \<open>\<open>for (const x of xs) { body(x) }\<close>\<close>

fun forEach :: "('a \<Rightarrow> 'st stmt) \<Rightarrow> 'a list \<Rightarrow> 'st stmt" where
  "forEach body [] = skip"
| "forEach body (x # xs) = seq (body x) (forEach body xs)"

text \<open>The manifest entry of a compiled program carries the file's bytes in base64.\<close>

record encodedEntry = manifestEntry +
  me_data :: string

text \<open>The state of the extraction: the file system and \<open>overrides\<close>.\<close>

definition onFs :: "'fs stmt \<Rightarrow> ('fs \<times> overrides) stmt" where
  "onFs a s = (case a (fst s) of (r, fs1) \<Rightarrow> (r, (fs1, snd s)))"

text \<open>Lines 394 to 396.\<close>

definition ensureCacheDir :: "'fs fsops \<Rightarrow> string \<Rightarrow> 'fs stmt" where
  "ensureCacheDir ops cacheDir =
     tryIgnore (\<lambda>fs. if \<not> fs_existsSync ops fs cacheDir then fs_mkdirSync ops cacheDir fs
                      else skip fs)"

text \<open>Lines 400 to 405.\<close>

definition writeExtracted :: "'fs fsops \<Rightarrow> rhost \<Rightarrow> string \<Rightarrow> string \<Rightarrow> 'fs stmt" where
  "writeExtracted ops h outputPath buffer =
     (\<lambda>fs. if \<not> fs_existsSync ops fs outputPath
            then seq (tryIgnore (fs_mkdirSync ops (rt_dirname h outputPath)))
                     (tryIgnore (fs_writeFileSync ops outputPath buffer)) fs
            else skip fs)"

text \<open>Lines 407 to 421, the body of the loop over \<open>asset.keys\<close>.\<close>

definition bunfsUrlOf :: "string \<Rightarrow> string option" where
  "bunfsUrlOf key =
     (if startsWith key ''file:///$bunfs/root/'' then Some key
      else if startsWith key ''/$bunfs/root/'' then Some (''file://'' @ key)
      else None)"

definition writeBunfs :: "'fs fsops \<Rightarrow> rhost \<Rightarrow> string \<Rightarrow> string \<Rightarrow> 'fs stmt" where
  "writeBunfs ops h buffer key =
     (case bunfsUrlOf key of
        None \<Rightarrow> skip
      | Some bunfsUrl \<Rightarrow>
          if length bunfsUrl = 0 then skip
          else tryIgnore
                 (\<lambda>fs. case rt_urlPathname h bunfsUrl of
                          Inl err \<Rightarrow> (Some err, fs)
                        | Inr bunfsPath \<Rightarrow>
                            if \<not> fs_existsSync ops fs bunfsPath
                            then seq (fs_mkdirSync ops (rt_dirname h bunfsPath))
                                     (fs_writeFileSync ops bunfsPath buffer) fs
                            else skip fs))"

text \<open>Lines 397 to 424, the body of the loop over \<open>encoded\<close>.\<close>

definition extractAsset ::
    "'fs fsops \<Rightarrow> rhost \<Rightarrow> string \<Rightarrow> encodedEntry \<Rightarrow> ('fs \<times> overrides) stmt" where
  "extractAsset ops h cacheDir asset =
     (let outputPath = rt_join h cacheDir (splitChar (CHR ''/'') (me_relativePath asset));
          buffer = rt_decodeBase64 h (me_data asset)
      in seq (onFs (writeExtracted ops h outputPath buffer))
           (seq (onFs (forEach (writeBunfs ops h buffer) (me_keys asset)))
                (\<lambda>s. (None, (fst s, registerAll h (me_keys asset) outputPath (snd s))))))"

text \<open>Lines 394 to 424: the cache directory, then every encoded asset.\<close>

definition extractAll ::
    "'fs fsops \<Rightarrow> rhost \<Rightarrow> string \<Rightarrow> encodedEntry list \<Rightarrow> ('fs \<times> overrides) stmt" where
  "extractAll ops h cacheDir encoded =
     seq (onFs (ensureCacheDir ops cacheDir)) (forEach (extractAsset ops h cacheDir) encoded)"

text \<open>
  The block of a compiled program, injected into module \<open>m\<close>. An exception of the
  extraction leaves the block: nothing after it runs.
\<close>

definition runCompiledBlock ::
    "'fs fsops \<Rightarrow> rhost \<Rightarrow> string \<Rightarrow> nat \<Rightarrow> encodedEntry list \<Rightarrow> manifestEntry list
       \<Rightarrow> ('fs \<times> runtime) stmt" where
  "runCompiledBlock ops h cacheDir m encoded entries s =
     (case extractAll ops h cacheDir encoded (fst s, []) of
        (Some err, (fs1, ov1)) \<Rightarrow> (Some err, (fs1, snd s))
      | (None, (fs1, ov1)) \<Rightarrow>
          (let ov = registerEntries h (cacheOutputPath h cacheDir) entries ov1;
               rt = snd s
           in (None, (fs1, installResolvers m
                             (rt\<lparr>globalTable := Some (mergeOverrides (globalTable rt) ov)\<rparr>)))))"

text \<open>A small run-time host for the examples: POSIX paths that are already normal.\<close>

definition demoRuntime :: "string \<Rightarrow> rhost" where
  "demoRuntime dir =
     \<lparr>runtimeDir = dir,
      rt_isAbsolute = (\<lambda>p. startsWith p ''/''),
      rt_resolve = (\<lambda>base p. if startsWith p ''/'' then p
                               else base @ ''/'' @ (if startsWith p ''./'' then drop 2 p else p)),
      rt_join = (\<lambda>base segments. join ''/'' (base # segments)),
      rt_dirname = (\<lambda>p. join ''/'' (butlast (splitChar (CHR ''/'') p))),
      rt_pathToFileURL = (\<lambda>p. Inr (''file://'' @ p)),
      rt_fileURLToPath = (\<lambda>u. if startsWith u ''file:///'' then Inr (drop 7 u)
                                 else Inl ''TypeError: The URL must be of scheme file''),
      rt_urlPathname = (\<lambda>u. if startsWith u ''file://'' then Inr (drop 7 u)
                               else Inl ''TypeError: Invalid URL''),
      rt_decodeBase64 = (\<lambda>d. d)\<rparr>"

text \<open>A file system for the examples: the paths that exist; every write fails.\<close>

definition failingFs :: "(string list) fsops" where
  "failingFs =
     \<lparr>fs_existsSync = (\<lambda>fs p. p \<in> set fs),
      fs_mkdirSync = (\<lambda>p fs. (Some ''EACCES: permission denied, mkdir'', fs)),
      fs_writeFileSync = (\<lambda>p d fs. (Some ''EACCES: permission denied, open'', fs))\<rparr>"

section \<open>Notions for the statements and the examples\<close>

text \<open>
  After a registration, \<open>x\<close> is in the table with the value it had before, if it had one,
  and with \<open>v\<close> otherwise.
\<close>

definition registeredAs :: "overrides \<Rightarrow> overrides \<Rightarrow> string \<Rightarrow> string \<Rightarrow> bool" where
  "registeredAs before after x v =
     (map_of after x = Some (case map_of before x of Some u \<Rightarrow> u | None \<Rightarrow> v))"

text \<open>\<open>globalThis[globalKey][k]\<close>, \<open>None\<close> where there is no table or no own property.\<close>

definition lookupGlobal :: "runtime \<Rightarrow> string \<Rightarrow> jsval option" where
  "lookupGlobal rt k = (case globalTable rt of Some t \<Rightarrow> t k | None \<Rightarrow> None)"

text \<open>A process of Bun in which no block has run yet, for the examples.\<close>

definition freshProcess :: runtime where
  "freshProcess =
     \<lparr>globalTable = None,
      resolversInstalled = False,
      globalBun = Some \<lparr>bun_resolveSync = Some (Native 0 False),
                        bun_resolve = Some (Native 1 False)\<rparr>,
      importMeta = (\<lambda>m. Some \<lparr>meta_resolve = Some (Native (2 + m) False),
                              meta_assignable = True, meta_definable = True\<rparr>)\<rparr>"

text \<open>
  \<open>Bun.resolveSync\<close> and \<open>Bun.resolve\<close> where they are functions, how many wrappers a
  property is inside, and whether a property that is a function carries the marker.
\<close>

definition wrappersOf :: "fnval option \<Rightarrow> nat" where
  "wrappersOf f = (case f of None \<Rightarrow> 0 | Some g \<Rightarrow> wrappers g)"

definition markedIfFunction :: "fnval option \<Rightarrow> bool" where
  "markedIfFunction f = (case f of None \<Rightarrow> True | Some g \<Rightarrow> bundleAssetsPatched g)"

definition bunSync :: "runtime \<Rightarrow> fnval option" where
  "bunSync rt = (case globalBun rt of None \<Rightarrow> None | Some bun \<Rightarrow> bun_resolveSync bun)"

definition bunAsync :: "runtime \<Rightarrow> fnval option" where
  "bunAsync rt = (case globalBun rt of None \<Rightarrow> None | Some bun \<Rightarrow> bun_resolve bun)"


text \<open>
  An original resolver for the examples: it counts its calls in the world and gives a
  fixed answer, a value or an exception.
\<close>

definition countingResolver :: "jsval + jsval \<Rightarrow> (table option \<times> nat) resolver" where
  "countingResolver answer specifier options w = (answer, (fst w, Suc (snd w)))"

text \<open>
  An original resolver for the examples that stores an entry in the global table while
  it resolves.
\<close>

definition registeringResolver ::
    "string \<Rightarrow> jsval \<Rightarrow> jsval \<Rightarrow> (table option \<times> nat) resolver" where
  "registeringResolver key v answer specifier options w =
     (Inr answer,
      (Some ((case fst w of Some t \<Rightarrow> t | None \<Rightarrow> Map.empty)(key \<mapsto> v)), Suc (snd w)))"

section \<open>Facts about the sanitizer\<close>

lemma set_join: "set (join sep xs) \<subseteq> (\<Union>x \<in> set xs. set x) \<union> set sep"
  by (induction sep xs rule: join.induct) auto

lemma set_sanitizeSegment: "set (sanitizeSegment v) \<subseteq> set segmentChars"
  by (auto simp: sanitizeSegment_def segmentChar_def segmentChars_def)

lemma set_normalizeTargetName:
  "set (normalizeTargetName v) \<subseteq> set segmentChars \<union> {CHR ''/''}"
proof (cases "filterBoolean (splitRuns isSeparator v) = []")
  case True
  with set_sanitizeSegment [of "''asset''"] show ?thesis
    by (auto simp: normalizeTargetName_def)
next
  case False
  let ?segs = "map sanitizeSegment (filterBoolean (splitRuns isSeparator v))"
  have "set (join ''/'' ?segs) \<subseteq> (\<Union>x \<in> set ?segs. set x) \<union> set ''/''"
    by (rule set_join)
  moreover have "(\<Union>x \<in> set ?segs. set x) \<subseteq> set segmentChars"
    using set_sanitizeSegment by auto
  ultimately have "set (join ''/'' ?segs) \<subseteq> set segmentChars \<union> {CHR ''/''}"
    by auto
  with False show ?thesis
    by (simp add: normalizeTargetName_def Let_def)
qed

lemma set_relativePathOf:
  "set (relativePathOf h targetName sp specifier) \<subseteq> set segmentChars \<union> {CHR ''/''}"
proof (cases targetName)
  case None
  with set_sanitizeSegment show ?thesis
    by (auto simp: relativePathOf_def Let_def)
next
  case (Some t)
  with set_normalizeTargetName [of t] show ?thesis
    by (simp add: relativePathOf_def)
qed

lemma splitChar_nonempty: "splitChar d s \<noteq> []"
  by (induction s) (auto split: list.splits)

lemma splitChar_no_sep: "d \<notin> set x \<Longrightarrow> splitChar d x = [x]"
  by (induction x) (auto split: list.splits)

lemma splitChar_append:
  "d \<notin> set x \<Longrightarrow> splitChar d (x @ d # rest) = x # splitChar d rest"
  by (induction x) (auto split: list.splits simp: splitChar_nonempty)

lemma splitChar_join:
  "xs \<noteq> [] \<Longrightarrow> (\<forall>x \<in> set xs. d \<notin> set x) \<Longrightarrow> splitChar d (join [d] xs) = xs"
  by (induction "[d]" xs rule: join.induct) (auto simp: splitChar_no_sep splitChar_append)

lemma slash_not_in_sanitized: "CHR ''/'' \<notin> set (sanitizeSegment v)"
  using set_sanitizeSegment [of v] by (auto simp: segmentChars_def)

lemma segments_normalizeTargetName:
  "filterBoolean (splitRuns isSeparator t) \<noteq> []
   \<Longrightarrow> splitChar (CHR ''/'') (normalizeTargetName t)
       = map sanitizeSegment (filterBoolean (splitRuns isSeparator t))"
  using splitChar_join [of "map sanitizeSegment (filterBoolean (splitRuns isSeparator t))" "CHR ''/''"]
  by (simp add: normalizeTargetName_def Let_def slash_not_in_sanitized)

section \<open>Facts about the attempts\<close>

lemma unset_simps [simp]: "unset None" "unset (Some p) = (p = [])"
  by (simp_all add: unset_def)

lemma tryPath_cases:
  assumes "normalizeNonEmpty h" "tryPath h p s = (m, s')"
  shows "(m \<longrightarrow> \<not> unset (sourcePath s'))
       \<and> (\<not> m \<longrightarrow> sourcePath s' = sourcePath s \<and> sourceUrl s' = sourceUrl s)
       \<and> resolutionErrors s' = resolutionErrors s
       \<and> set (attempted s') = insert (path_normalize h p) (set (attempted s))
       \<and> (distinct (attempted s) \<longrightarrow> distinct (attempted s'))"
  using assms
  by (auto simp: tryPath_def registerMatch_def normalizeNonEmpty_def Let_def split: if_splits)

lemma tryUrl_cases:
  assumes "normalizeNonEmpty h" "tryUrl h u s = (m, s')"
  shows "(m \<longrightarrow> \<not> unset (sourcePath s'))
       \<and> (\<not> m \<longrightarrow> sourcePath s' = sourcePath s \<and> sourceUrl s' = sourceUrl s)
       \<and> set (attempted s) \<subseteq> set (attempted s')
       \<and> set (resolutionErrors s) \<subseteq> set (resolutionErrors s')
       \<and> urlRecorded h s' u
       \<and> (distinct (attempted s) \<longrightarrow> distinct (attempted s'))"
proof (cases "toFilePath h u")
  case (Inl err)
  with assms(2) show ?thesis by (auto simp: tryUrl_def urlRecorded_def)
next
  case (Inr p)
  obtain m1 s1 where t: "tryPath h p s = (m1, s1)" by (cases "tryPath h p s")
  from tryPath_cases [OF assms(1) t] assms(2) Inr t show ?thesis
    by (auto simp: tryUrl_def urlRecorded_def split: if_splits)
qed

lemma grows_refl: "grows s s"
  by (simp add: grows_def)

lemma grows_trans: "grows s t \<Longrightarrow> grows t u \<Longrightarrow> grows s u"
  by (auto simp: grows_def)

lemma recorded_grows: "grows s s' \<Longrightarrow> recorded h specifier s a \<Longrightarrow> recorded h specifier s' a"
  by (cases a) (auto simp: grows_def urlRecorded_def split: sum.splits)

lemma runAttempt_cases:
  assumes "normalizeNonEmpty h" "runAttempt h specifier a s = (m, s')"
  shows "(m \<longrightarrow> \<not> unset (sourcePath s'))
       \<and> (\<not> m \<longrightarrow> sourcePath s' = sourcePath s)
       \<and> grows s s' \<and> recorded h specifier s' a"
proof (cases a)
  case (ByPath p)
  with assms tryPath_cases [of h p s m s'] show ?thesis
    by (auto simp: grows_def)
next
  case (ByUrl u)
  with assms tryUrl_cases [of h u s m s'] show ?thesis
    by (auto simp: grows_def)
next
  case (ByResolver parent)
  let ?r = "import_meta_resolve h specifier
              (case parent of None \<Rightarrow> None | Some p \<Rightarrow> if p = [] then None else Some p)"
  show ?thesis
  proof (cases ?r)
    case (Inl err)
    with assms ByResolver show ?thesis
      by (auto simp: attemptImportMetaResolve_def grows_def)
  next
    case (Inr u)
    with assms ByResolver have "tryUrl h u s = (m, s')"
      by (simp add: attemptImportMetaResolve_def)
    from tryUrl_cases [OF assms(1) this] Inr ByResolver show ?thesis
      by (auto simp: grows_def)
  qed
qed

lemma firstMatch_grows:
  assumes "normalizeNonEmpty h"
  shows "grows s (firstMatch h specifier as s)"
proof (induction as arbitrary: s)
  case Nil
  show ?case by (simp add: grows_refl)
next
  case (Cons a as)
  obtain m s1 where r: "runAttempt h specifier a s = (m, s1)"
    by (cases "runAttempt h specifier a s")
  from runAttempt_cases [OF assms r] have g: "grows s s1" by simp
  show ?case
  proof (cases m)
    case True
    with r g show ?thesis by simp
  next
    case False
    with r have "firstMatch h specifier (a # as) s = firstMatch h specifier as s1" by simp
    with grows_trans [OF g Cons.IH [of s1]] show ?thesis by simp
  qed
qed

lemma firstMatch_unset:
  assumes "normalizeNonEmpty h"
  shows "unset (sourcePath s) \<Longrightarrow> unset (sourcePath (firstMatch h specifier as s))
         \<Longrightarrow> (\<forall>a \<in> set as. recorded h specifier (firstMatch h specifier as s) a)"
proof (induction as arbitrary: s)
  case Nil
  then show ?case by simp
next
  case (Cons a as)
  obtain m s1 where r: "runAttempt h specifier a s = (m, s1)"
    by (cases "runAttempt h specifier a s")
  note c = runAttempt_cases [OF assms r]
  from Cons.prems r c have nm: "\<not> m" by auto
  with r have fm: "firstMatch h specifier (a # as) s = firstMatch h specifier as s1" by simp
  from nm c Cons.prems(1) have u1: "unset (sourcePath s1)" by simp
  from Cons.prems(2) fm have u2: "unset (sourcePath (firstMatch h specifier as s1))" by simp
  have rest: "\<forall>x \<in> set as. recorded h specifier (firstMatch h specifier as s1) x"
    using Cons.IH [OF u1 u2] .
  have g: "grows s1 (firstMatch h specifier as s1)"
    by (rule firstMatch_grows [OF assms])
  from c have "recorded h specifier s1 a" by simp
  from recorded_grows [OF g this] rest fm show ?case by simp
qed

lemma firstMatch_append:
  assumes "normalizeNonEmpty h"
  shows "unset (sourcePath s) \<Longrightarrow>
         firstMatch h specifier (as @ bs) s
           = guarded h specifier bs (firstMatch h specifier as s)"
proof (induction as arbitrary: s)
  case Nil
  then show ?case by (simp add: guarded_def)
next
  case (Cons a as)
  obtain m s1 where r: "runAttempt h specifier a s = (m, s1)"
    by (cases "runAttempt h specifier a s")
  note c = runAttempt_cases [OF assms r]
  show ?case
  proof (cases m)
    case True
    with r c show ?thesis by (simp add: guarded_def)
  next
    case False
    with c Cons.prems have "unset (sourcePath s1)" by simp
    from Cons.IH [OF this] r False show ?thesis by simp
  qed
qed

lemma guarded_append:
  assumes "normalizeNonEmpty h"
  shows "guarded h specifier (as @ bs) s = guarded h specifier bs (guarded h specifier as s)"
  using firstMatch_append [OF assms, of s specifier as bs]
  by (simp add: guarded_def)

lemma firstMatch_single: "firstMatch h specifier [a] s = snd (runAttempt h specifier a s)"
  by (cases "runAttempt h specifier a s") simp

lemma tryDirs_firstMatch:
  "tryDirs h specifier dirs s
     = firstMatch h specifier (map (\<lambda>dir. ByPath (path_resolve h dir specifier)) dirs) s"
  by (induction dirs arbitrary: s) (auto split: prod.splits)

lemma tryParents_firstMatch:
  "tryParents h specifier parents s
     = firstMatch h specifier (map (\<lambda>parentUrl. ByResolver (Some parentUrl)) parents) s"
  by (induction parents arbitrary: s) (auto split: prod.splits)

lemma stepDirect_firstMatch:
  "stepDirect h specifier s = firstMatch h specifier (directAttempts h specifier) s"
  by (simp add: stepDirect_def directAttempts_def firstMatch_single del: firstMatch.simps(2))

lemma stepRelative_guarded:
  assumes "normalizeNonEmpty h"
  shows "stepRelative h dirs specifier s = guarded h specifier (relativeAttempts h dirs specifier) s"
proof (cases "unset (sourcePath s) \<and> isRelative specifier")
  case False
  then show ?thesis by (auto simp: stepRelative_def guarded_def relativeAttempts_def)
next
  case True
  let ?a = "ByPath (path_resolve h (process_cwd h) specifier)"
  let ?ds = "map (\<lambda>dir. ByPath (path_resolve h dir specifier)) dirs"
  from True have "relativeAttempts h dirs specifier = [?a] @ ?ds"
    by (simp add: relativeAttempts_def)
  with True firstMatch_append [OF assms, of s specifier "[?a]" ?ds]
  have "guarded h specifier (relativeAttempts h dirs specifier) s
          = guarded h specifier ?ds (firstMatch h specifier [?a] s)"
    by (simp add: guarded_def)
  also have "\<dots> = stepRelative h dirs specifier s"
    using True
    by (simp add: stepRelative_def guarded_def firstMatch_single tryDirs_firstMatch Let_def
             del: firstMatch.simps(2))
  finally show ?thesis by simp
qed

lemma stepParents_NoParent_guarded:
  assumes "normalizeNonEmpty h"
  shows "stepNoParent h specifier (stepParents h parents specifier s)
           = guarded h specifier (resolverAttempts parents) s"
proof -
  have a: "stepParents h parents specifier s
             = guarded h specifier (map (\<lambda>parentUrl. ByResolver (Some parentUrl)) parents) s"
    by (simp add: stepParents_def guarded_def tryParents_firstMatch)
  have b: "stepNoParent h specifier t = guarded h specifier [ByResolver None] t" for t
    by (simp add: stepNoParent_def guarded_def firstMatch_single del: firstMatch.simps(2))
  show ?thesis
    unfolding a b resolverAttempts_def guarded_append [OF assms] ..
qed

lemma stepCwd_guarded:
  "stepCwd h specifier s = guarded h specifier (cwdAttempts h specifier) s"
  by (auto simp: stepCwd_def guarded_def cwdAttempts_def firstMatch_single
           simp del: firstMatch.simps(2))

lemma resolveChain_firstMatch:
  assumes "normalizeNonEmpty h"
  shows "resolveChain h dirs parents specifier
           = firstMatch h specifier (strategies h dirs parents specifier) initLocals"
proof -
  have u: "unset (sourcePath initLocals)" by (simp add: initLocals_def)
  have "firstMatch h specifier (strategies h dirs parents specifier) initLocals
          = guarded h specifier (strategies h dirs parents specifier) initLocals"
    using u by (simp add: guarded_def)
  also have "\<dots> = guarded h specifier (cwdAttempts h specifier)
                    (guarded h specifier (resolverAttempts parents)
                      (guarded h specifier (relativeAttempts h dirs specifier)
                        (guarded h specifier (directAttempts h specifier) initLocals)))"
    by (simp only: strategies_def guarded_append [OF assms])
  also have "guarded h specifier (directAttempts h specifier) initLocals
               = stepDirect h specifier initLocals"
    using u by (simp add: guarded_def stepDirect_firstMatch)
  finally show ?thesis
    by (simp add: resolveChain_def stepCwd_guarded stepParents_NoParent_guarded [OF assms]
                  stepRelative_guarded [OF assms])
qed

lemma tryPath_attempted_again:
  "path_normalize h p \<in> set (attempted s) \<Longrightarrow> tryPath (h\<lparr>file_exists := e\<rparr>) p s = (False, s)"
  by (simp add: tryPath_def)

lemma resolveChain_distinct:
  assumes "normalizeNonEmpty h"
  shows "distinct (attempted (resolveChain h dirs parents specifier))"
proof -
  have "grows initLocals (resolveChain h dirs parents specifier)"
    unfolding resolveChain_firstMatch [OF assms] by (rule firstMatch_grows [OF assms])
  then show ?thesis by (simp add: grows_def initLocals_def)
qed




lemma demoHost_normalizeNonEmpty: "normalizeNonEmpty (demoHost files modules)"
  by (simp add: normalizeNonEmpty_def demoHost_def)

lemmas resolve_eval =
  demoHost_def resolveChain_def stepDirect_def stepRelative_def stepParents_def
  stepNoParent_def stepCwd_def tryPath_def tryUrl_def attemptImportMetaResolve_def
  toFilePath_def registerMatch_def initLocals_def startsWith_def isRelative_def
  unset_def Let_def

section \<open>Facts about the registration\<close>

lemma set_setAdd [simp]: "set (setAdd x xs) = insert x (set xs)"
  by (auto simp: setAdd_def)

lemma set_arrayFromSet_aux: "set (foldl (\<lambda>acc x. setAdd x acc) acc xs) = set acc \<union> set xs"
  by (induction xs arbitrary: acc) auto

lemma set_arrayFromSet [simp]: "set (arrayFromSet xs) = set xs"
  by (simp add: arrayFromSet_def set_arrayFromSet_aux)

lemma map_of_setIfAbsent:
  "map_of (setIfAbsent v ov x) k
     = (case map_of ov k of Some u \<Rightarrow> Some u | None \<Rightarrow> if k = x then Some v else None)"
  by (auto simp: setIfAbsent_def map_add_def split: option.splits)

lemma map_of_foldl_setIfAbsent:
  "map_of (foldl (setIfAbsent v) ov xs) k
     = (case map_of ov k of Some u \<Rightarrow> Some u | None \<Rightarrow> if k \<in> set xs then Some v else None)"
  by (induction xs arbitrary: ov) (auto simp: map_of_setIfAbsent split: option.splits)

lemma map_of_registerKey:
  "map_of (registerKey h key v ov) k
     = (case map_of ov k of
          Some u \<Rightarrow> Some u
        | None \<Rightarrow> if k \<in> set (offeredBy h key) then Some v else None)"
  by (auto simp: registerKey_def offeredBy_def map_of_foldl_setIfAbsent split: option.splits)




lemma foldl_upd:
  "foldl (\<lambda>target key. target(key \<mapsto> f key)) t ks k
     = (if k \<in> set ks then Some (f k) else t k)"
  by (induction ks arbitrary: t) auto

lemma mergeOverrides_apply:
  "mergeOverrides current ov k
     = (case map_of ov k of
          Some v \<Rightarrow> Some (JString v)
        | None \<Rightarrow> (case current of Some t \<Rightarrow> t k | None \<Rightarrow> None))"
proof -
  have "(k \<in> set (map fst ov)) = (map_of ov k \<noteq> None)"
    by (metis map_of_eq_None_iff set_map)
  then show ?thesis
    by (auto simp: mergeOverrides_def foldl_upd split: option.splits)
qed

lemma key_in_offeredBy: "key \<noteq> [] \<Longrightarrow> key \<in> set (offeredBy h key)"
  by (auto simp: offeredBy_def keyVariants_def addVariant_def Let_def split: sum.splits)


lemma registeredAs_member:
  "x \<in> set (offeredBy h key) \<Longrightarrow> registeredAs ov (registerKey h key v ov) x v"
  by (auto simp: registeredAs_def map_of_registerKey split: option.splits)

lemmas runtime_eval =
  demoRuntime_def registerEntries_def registerAll_def registerKey_def keyVariants_def
  addVariant_def setAdd_def setIfAbsent_def bundleOutputPath_def startsWith_def Let_def


lemma globalTable_installResolvers: "globalTable (installResolvers m x) = globalTable x"
  by (simp add: installResolvers_def patchMeta_def patchResolve_def patchResolveSync_def
           split: option.splits)



section \<open>Facts about the installation\<close>

lemma installResolvers_installed: "resolversInstalled (installResolvers m rt)"
  by (simp add: installResolvers_def)

lemma installResolvers_noop: "resolversInstalled rt \<Longrightarrow> installResolvers m rt = rt"
  by (simp add: installResolvers_def)

lemma runBlock_installed: "resolversInstalled (runBlock h m entries rt)"
  by (simp add: runBlock_def Let_def installResolvers_installed)

lemma runBlock_after_install:
  "resolversInstalled rt \<Longrightarrow>
   runBlock h m entries rt
     = rt\<lparr>globalTable := Some (mergeOverrides (globalTable rt)
                                  (registerEntries h (bundleOutputPath h) entries []))\<rparr>"
  by (simp add: runBlock_def Let_def installResolvers_def)

lemma runBlocks_after_install:
  "resolversInstalled rt \<Longrightarrow>
   resolversInstalled (runBlocks blocks rt)
   \<and> globalBun (runBlocks blocks rt) = globalBun rt
   \<and> importMeta (runBlocks blocks rt) = importMeta rt"
proof (induction blocks arbitrary: rt)
  case Nil
  then show ?case by simp
next
  case (Cons b blocks)
  obtain h m entries where b: "b = (h, m, entries)" by (cases b)
  let ?rt1 = "runBlock h m entries rt"
  have i: "resolversInstalled ?rt1" by (rule runBlock_installed)
  from Cons.prems have "globalBun ?rt1 = globalBun rt \<and> importMeta ?rt1 = importMeta rt"
    by (simp add: runBlock_after_install)
  with Cons.IH [OF i] b show ?case by simp
qed

lemma patchResolveSync_idem: "patchResolveSync (patchResolveSync rt) = patchResolveSync rt"
  by (auto simp: patchResolveSync_def split: option.splits)

lemma patchResolve_idem: "patchResolve (patchResolve rt) = patchResolve rt"
  by (auto simp: patchResolve_def split: option.splits)

lemma patchMeta_idem: "patchMeta m (patchMeta m rt) = patchMeta m rt"
  by (auto simp: patchMeta_def split: option.splits)

lemma first_install_marks:
  "\<not> resolversInstalled rt \<Longrightarrow>
   markedIfFunction (bunSync (installResolvers m rt))
   \<and> markedIfFunction (bunAsync (installResolvers m rt))
   \<and> wrappersOf (bunSync (installResolvers m rt)) \<le> Suc (wrappersOf (bunSync rt))
   \<and> wrappersOf (bunAsync (installResolvers m rt)) \<le> Suc (wrappersOf (bunAsync rt))"
  by (auto simp: installResolvers_def patchMeta_def patchResolve_def patchResolveSync_def
                 markedIfFunction_def bunSync_def bunAsync_def wrappersOf_def
           split: option.splits)


section \<open>Facts about the extraction\<close>

lemma tryIgnore_ok: "fst (tryIgnore a s) = None"
  by (simp add: tryIgnore_def split: prod.splits)

lemma skip_ok: "fst (skip s) = None"
  by (simp add: skip_def)

lemma seq_ok: "(\<And>s. fst (a s) = None) \<Longrightarrow> (\<And>s. fst (b s) = None) \<Longrightarrow> fst (seq a b s) = None"
  by (auto simp: seq_def split: prod.splits option.splits) (metis fst_conv option.distinct(1))

lemma forEach_ok: "(\<And>x s. fst (body x s) = None) \<Longrightarrow> fst (forEach body xs s) = None"
  by (induction xs arbitrary: s) (auto simp: skip_ok intro: seq_ok)

lemma onFs_ok: "(\<And>fs. fst (a fs) = None) \<Longrightarrow> fst (onFs a s) = None"
  by (auto simp: onFs_def split: prod.splits) (metis fst_conv)

lemma ensureCacheDir_ok: "fst (ensureCacheDir ops cacheDir fs) = None"
  by (simp add: ensureCacheDir_def tryIgnore_ok)

lemma writeExtracted_ok: "fst (writeExtracted ops h outputPath buffer fs) = None"
  by (auto simp: writeExtracted_def skip_ok tryIgnore_ok intro: seq_ok)

lemma writeBunfs_ok: "fst (writeBunfs ops h buffer key fs) = None"
  by (auto simp: writeBunfs_def skip_ok tryIgnore_ok split: option.splits)

lemma extractAsset_ok: "fst (extractAsset ops h cacheDir asset s) = None"
  unfolding extractAsset_def Let_def
  by (intro seq_ok onFs_ok forEach_ok writeExtracted_ok writeBunfs_ok) simp

lemma extractAll_ok: "fst (extractAll ops h cacheDir encoded s) = None"
  unfolding extractAll_def
  by (intro seq_ok onFs_ok forEach_ok ensureCacheDir_ok extractAsset_ok)


section \<open>Facts about the lookup\<close>

lemma applyOverride_hit:
  "isString (findOverride h g specifier)
   \<Longrightarrow> applyOverride h g specifier resolved = findOverride h g specifier"
  by (simp add: applyOverride_def Let_def)

lemma applyOverride_miss:
  "\<not> isString (findOverride h g specifier)
   \<Longrightarrow> applyOverride h g specifier resolved
       = (if isString resolved \<and> isString (findOverride h g resolved)
          then findOverride h g resolved else resolved)"
  by (simp add: applyOverride_def Let_def)

lemma findOverride_own:
  "t k = Some v \<Longrightarrow> k \<noteq> [] \<Longrightarrow> findOverride h (Some t) (JString k) = v"
  by (simp add: findOverride_def hasOwnGet_def)


lemma applyOverride_explicit:
  "applyOverride h g specifier resolved
     = (if isString (findOverride h g specifier) then findOverride h g specifier
        else if isString resolved \<and> isString (findOverride h g resolved)
        then findOverride h g resolved
        else resolved)"
  by (simp add: applyOverride_def Let_def)

lemmas lookup_eval = patchedResolveSync_def patchedAsync_def patchedAsClaimed_def
  applyOverride_def findOverride_def hasOwnGet_def thenApplyCatch_def
  countingResolver_def registeringResolver_def demoRuntime_def startsWith_def Let_def


lemmas entry_eval = resolveEntry_def relativePathOf_def normalizeTargetName_def
  filterBoolean_def isSeparator_def sanitizeSegment_def segmentChar_def segmentChars_def

section \<open>The claims about the build\<close>

text \<open>
  C1. For every asset entry that resolves, the emitted \<open>relativePath\<close> contains only
  characters of \<open>[A-Za-z0-9._-]\<close> and \<open>/\<close>; with a target name that has a non-empty
  segment, the segments of \<open>relativePath\<close> are the non-empty segments of the target name,
  each sanitized on its own.
\<close>

theorem relativePath_charset:
  "resolveEntry h dirs parents entry = Inr a
   \<Longrightarrow> set (ra_relativePath a) \<subseteq> set segmentChars \<union> {CHR ''/''}
       \<and> (\<forall>t. targetNameOf entry = Some t \<and> filterBoolean (splitRuns isSeparator t) \<noteq> []
              \<longrightarrow> splitChar (CHR ''/'') (ra_relativePath a)
                   = map sanitizeSegment (filterBoolean (splitRuns isSeparator t)))"
proof
  assume r: "resolveEntry h dirs parents entry = Inr a"
  then obtain sp where
    rp: "ra_relativePath a = relativePathOf h (targetNameOf entry) sp (specifierOf entry)"
    by (auto simp: resolveEntry_def Let_def split: if_splits)
  with set_relativePathOf [of h "targetNameOf entry" sp "specifierOf entry"]
  show "set (ra_relativePath a) \<subseteq> set segmentChars \<union> {CHR ''/''}"
    by simp
  show "\<forall>t. targetNameOf entry = Some t \<and> filterBoolean (splitRuns isSeparator t) \<noteq> []
              \<longrightarrow> splitChar (CHR ''/'') (ra_relativePath a)
                   = map sanitizeSegment (filterBoolean (splitRuns isSeparator t))"
    using rp by (auto simp: relativePathOf_def segments_normalizeTargetName)
qed

text \<open>C1, an instance: a target name with a space.\<close>

theorem relativePath_charset_witness:
  "resolveEntry (demoHost [''/proj/logo.png''] []) [] []
      (Obj ''./logo.png'' (Some ''static/my logo.png'') None)
     = Inr \<lparr>ra_specifier = ''./logo.png'', ra_sourcePath = ''/proj/logo.png'',
            ra_sourceUrl = ''file:///proj/logo.png'',
            ra_relativePath = ''static/my-logo.png'', ra_runtimeKeys = []\<rparr>
   \<and> set ''static/my-logo.png'' \<subseteq> set segmentChars \<union> {CHR ''/''}
   \<and> filterBoolean (splitRuns isSeparator ''static/my logo.png'') = [''static'', ''my logo.png'']
   \<and> splitChar (CHR ''/'') ''static/my-logo.png''
       = map sanitizeSegment [''static'', ''my logo.png'']"
proof -
  have r: "resolveEntry (demoHost [''/proj/logo.png''] []) [] []
             (Obj ''./logo.png'' (Some ''static/my logo.png'') None)
           = Inr \<lparr>ra_specifier = ''./logo.png'', ra_sourcePath = ''/proj/logo.png'',
                  ra_sourceUrl = ''file:///proj/logo.png'',
                  ra_relativePath = ''static/my-logo.png'', ra_runtimeKeys = []\<rparr>"
    by (simp add: resolve_eval entry_eval)
  have f: "filterBoolean (splitRuns isSeparator ''static/my logo.png'')
           = [''static'', ''my logo.png'']"
    by (simp add: filterBoolean_def isSeparator_def)
  have c: "set ''static/my-logo.png'' \<subseteq> set segmentChars \<union> {CHR ''/''}"
    using relativePath_charset [OF r] by simp
  have g: "splitChar (CHR ''/'') ''static/my-logo.png''
           = map sanitizeSegment [''static'', ''my logo.png'']"
    by (simp add: sanitizeSegment_def segmentChar_def segmentChars_def)
  show ?thesis
    by (rule conjI [OF r conjI [OF c conjI [OF f g]]])
qed

text \<open>
  C1, the segment \<open>..\<close>: the dot is in the class of the sanitizer, so the target name
  \<open>../../outside/logo.png\<close> gives a \<open>relativePath\<close> whose first two segments are \<open>..\<close>.
\<close>

theorem dotdot_segment_kept:
  "resolveEntry (demoHost [''/proj/logo.png''] []) [] []
      (Obj ''./logo.png'' (Some ''../../outside/logo.png'') None)
     = Inr \<lparr>ra_specifier = ''./logo.png'', ra_sourcePath = ''/proj/logo.png'',
            ra_sourceUrl = ''file:///proj/logo.png'',
            ra_relativePath = ''../../outside/logo.png'', ra_runtimeKeys = []\<rparr>
   \<and> ''..'' \<in> set (splitChar (CHR ''/'') ''../../outside/logo.png'')"
  by (simp add: resolve_eval entry_eval)

text \<open>
  C2. The chain makes the attempts of \<open>strategies\<close> in order and stops at the
  first that matches: the \<open>file://\<close> URL or the absolute path; for a specifier that starts
  with \<open>./\<close> or \<open>../\<close> the working directory, then each entrypoint directory; then, for
  any specifier still unresolved, \<open>import.meta.resolve\<close> with each entrypoint URL as parent
  and once with none; last the working directory again unless the specifier is a URL or
  absolute. A path already attempted is not tested again: \<open>attempted\<close> holds no path
  twice, \<open>tryPath\<close> on a path in \<open>attempted\<close> reports no match and changes nothing
  whatever the file system holds, and on a new path it records the path and reports what
  the existence test says.
\<close>

theorem resolveChain_order:
  "normalizeNonEmpty h \<Longrightarrow>
   resolveChain h dirs parents specifier
     = firstMatch h specifier (strategies h dirs parents specifier) initLocals
   \<and> distinct (attempted (resolveChain h dirs parents specifier))
   \<and> (\<forall>p s e. path_normalize h p \<in> set (attempted s)
          \<longrightarrow> tryPath (h\<lparr>file_exists := e\<rparr>) p s = (False, s))
   \<and> (\<forall>p s. path_normalize h p \<notin> set (attempted s)
          \<longrightarrow> attempted (snd (tryPath h p s)) = attempted s @ [path_normalize h p]
              \<and> fst (tryPath h p s) = file_exists h (path_normalize h p))"
proof -
  assume n: "normalizeNonEmpty h"
  have a: "resolveChain h dirs parents specifier
             = firstMatch h specifier (strategies h dirs parents specifier) initLocals"
    by (rule resolveChain_firstMatch [OF n])
  have b: "distinct (attempted (resolveChain h dirs parents specifier))"
    by (rule resolveChain_distinct [OF n])
  have c: "\<forall>p s e. path_normalize h p \<in> set (attempted s)
             \<longrightarrow> tryPath (h\<lparr>file_exists := e\<rparr>) p s = (False, s)"
    by (simp add: tryPath_attempted_again)
  have d: "\<forall>p s. path_normalize h p \<notin> set (attempted s)
             \<longrightarrow> attempted (snd (tryPath h p s)) = attempted s @ [path_normalize h p]
                 \<and> fst (tryPath h p s) = file_exists h (path_normalize h p)"
    by (simp add: tryPath_def registerMatch_def Let_def)
  from a b c d show ?thesis by blast
qed

text \<open>
  C2, an instance: a relative specifier found in the entrypoint directory; where it is
  found nowhere, the last attempt repeats the first path, which is listed once.
\<close>

theorem resolveChain_order_witness:
  "normalizeNonEmpty (demoHost [''/proj/src/a.txt''] [])
   \<and> entrypointDirsOf (demoHost [''/proj/src/a.txt''] []) [''src/main.ts''] = [''/proj/src'']
   \<and> entrypointUrlParentsOf (demoHost [''/proj/src/a.txt''] []) [''src/main.ts'']
       = [''file:///proj/src/main.ts'']
   \<and> resolveChain (demoHost [''/proj/src/a.txt''] []) [''/proj/src'']
        [''file:///proj/src/main.ts''] ''./a.txt''
      = firstMatch (demoHost [''/proj/src/a.txt''] []) ''./a.txt''
          [ByPath ''/proj/a.txt'', ByPath ''/proj/src/a.txt'',
           ByResolver (Some ''file:///proj/src/main.ts''), ByResolver None,
           ByPath ''/proj/a.txt'']
          initLocals
   \<and> sourcePath (resolveChain (demoHost [''/proj/src/a.txt''] []) [''/proj/src'']
                    [''file:///proj/src/main.ts''] ''./a.txt'')
      = Some ''/proj/src/a.txt''
   \<and> attempted (resolveChain (demoHost [] []) [''/proj/src'']
                   [''file:///proj/src/main.ts''] ''./a.txt'')
      = [''/proj/a.txt'', ''/proj/src/a.txt'']"
proof -
  let ?h = "demoHost [''/proj/src/a.txt''] []"
  have n: "normalizeNonEmpty ?h" by (rule demoHost_normalizeNonEmpty)
  have d: "entrypointDirsOf ?h [''src/main.ts''] = [''/proj/src'']"
    by (simp add: entrypointDirsOf_def entrypointAbsPaths_def demoHost_def startsWith_def)
  have p: "entrypointUrlParentsOf ?h [''src/main.ts''] = [''file:///proj/src/main.ts'']"
    by (simp add: entrypointUrlParentsOf_def entrypointAbsPaths_def demoHost_def startsWith_def)
  have s: "strategies ?h [''/proj/src''] [''file:///proj/src/main.ts''] ''./a.txt''
           = [ByPath ''/proj/a.txt'', ByPath ''/proj/src/a.txt'',
              ByResolver (Some ''file:///proj/src/main.ts''), ByResolver None,
              ByPath ''/proj/a.txt'']"
    by (simp add: strategies_def directAttempts_def relativeAttempts_def resolverAttempts_def
                  cwdAttempts_def demoHost_def startsWith_def isRelative_def)
  have v: "sourcePath (resolveChain ?h [''/proj/src''] [''file:///proj/src/main.ts''] ''./a.txt'')
           = Some ''/proj/src/a.txt''"
    by (simp add: resolve_eval)
  have a: "attempted (resolveChain (demoHost [] []) [''/proj/src'']
                        [''file:///proj/src/main.ts''] ''./a.txt'')
           = [''/proj/a.txt'', ''/proj/src/a.txt'']"
    by (simp add: resolve_eval)
  from resolveChain_order [OF n, of "[''/proj/src'']" "[''file:///proj/src/main.ts'']" "''./a.txt''"]
  have o: "resolveChain ?h [''/proj/src''] [''file:///proj/src/main.ts''] ''./a.txt''
           = firstMatch ?h ''./a.txt''
               (strategies ?h [''/proj/src''] [''file:///proj/src/main.ts''] ''./a.txt'')
               initLocals"
    by (rule conjunct1)
  show ?thesis
    by (rule conjI [OF n conjI [OF d conjI [OF p conjI [OF o [unfolded s] conjI [OF v a]]]]])
qed

text \<open>
  C2, the resolver and a specifier that is not bare: for the relative specifier
  \<open>./x.txt\<close>, missing under the working directory, the code asks \<open>import.meta.resolve\<close>
  and finds the file; the order that keeps the resolver for bare specifiers
  (\<open>strategiesAsClaimed\<close>) finds nothing.
\<close>

theorem resolver_tried_for_relative_specifier:
  "sourcePath (resolveChain
       (demoHost [''/plugin/x.txt''] [(''./x.txt'', ''file:///plugin/x.txt'')]) [] [] ''./x.txt'')
     = Some ''/plugin/x.txt''
   \<and> sourcePath (firstMatch
       (demoHost [''/plugin/x.txt''] [(''./x.txt'', ''file:///plugin/x.txt'')]) ''./x.txt''
       (strategiesAsClaimed
          (demoHost [''/plugin/x.txt''] [(''./x.txt'', ''file:///plugin/x.txt'')]) [] [] ''./x.txt'')
       initLocals)
     = None"
  by (simp add: resolve_eval strategiesAsClaimed_def cwdAttempts_def)

text \<open>
  C7. When the chain ends with \<open>sourcePath\<close> unset, the entry fails with the error whose
  message lists \<open>attempted\<close> after \<open>Checked:\<close> and \<open>resolutionErrors\<close> after
  \<open>Resolver errors:\<close>; \<open>attempted\<close> has no duplicate; and every attempt of the chain has
  left its path in \<open>attempted\<close> or its error in \<open>resolutionErrors\<close>.
\<close>

theorem notFound_lists_every_attempt:
  assumes "normalizeNonEmpty h"
    and "unset (sourcePath (resolveChain h dirs parents (specifierOf entry)))"
  shows "resolveEntry h dirs parents entry
           = Inl (Error (notFoundMessage (specifierOf entry)
                           (resolveChain h dirs parents (specifierOf entry))))
       \<and> notFoundMessage (specifierOf entry) (resolveChain h dirs parents (specifierOf entry))
           = ''bundleAssetsPlugin could not locate asset '' @ [CHR 0x22] @ specifierOf entry
             @ [CHR 0x22] @ ''.''
             @ (if attempted (resolveChain h dirs parents (specifierOf entry)) = [] then []
                else [CHR 0x0A] @ ''Checked: ''
                     @ join '', '' (attempted (resolveChain h dirs parents (specifierOf entry))))
             @ (if resolutionErrors (resolveChain h dirs parents (specifierOf entry)) = [] then []
                else [CHR 0x0A] @ ''Resolver errors: ''
                     @ join ''; ''
                         (resolutionErrors (resolveChain h dirs parents (specifierOf entry))))
       \<and> distinct (attempted (resolveChain h dirs parents (specifierOf entry)))
       \<and> (\<forall>a \<in> set (strategies h dirs parents (specifierOf entry)).
             recorded h (specifierOf entry)
               (resolveChain h dirs parents (specifierOf entry)) a)"
proof -
  let ?spec = "specifierOf entry"
  let ?s = "resolveChain h dirs parents ?spec"
  have fm: "?s = firstMatch h ?spec (strategies h dirs parents ?spec) initLocals"
    by (rule resolveChain_firstMatch [OF assms(1)])
  have u0: "unset (sourcePath initLocals)" by (simp add: initLocals_def)
  have a: "resolveEntry h dirs parents entry = Inl (Error (notFoundMessage ?spec ?s))"
    using assms(2) by (simp add: resolveEntry_def Let_def)
  have b: "notFoundMessage ?spec ?s
           = ''bundleAssetsPlugin could not locate asset '' @ [CHR 0x22] @ ?spec
             @ [CHR 0x22] @ ''.''
             @ (if attempted ?s = [] then []
                else [CHR 0x0A] @ ''Checked: '' @ join '', '' (attempted ?s))
             @ (if resolutionErrors ?s = [] then []
                else [CHR 0x0A] @ ''Resolver errors: '' @ join ''; '' (resolutionErrors ?s))"
    by (simp add: notFoundMessage_def resolutionSummary_def errorSummary_def)
  have "grows initLocals ?s"
    unfolding fm by (rule firstMatch_grows [OF assms(1)])
  then have c: "distinct (attempted ?s)"
    by (simp add: grows_def initLocals_def)
  have d: "\<forall>a \<in> set (strategies h dirs parents ?spec). recorded h ?spec ?s a"
    using firstMatch_unset [OF assms(1) u0, of ?spec "strategies h dirs parents ?spec"] assms(2)
    unfolding fm [symmetric] by simp
  from a b c d show ?thesis by blast
qed


text \<open>C7, an instance: a file that is nowhere.\<close>

theorem notFound_lists_every_attempt_witness:
  "normalizeNonEmpty (demoHost [] [])
   \<and> unset (sourcePath (resolveChain (demoHost [] []) [''/proj/src'']
                [''file:///proj/src/main.ts''] (specifierOf (Plain ''./missing.txt''))))
   \<and> resolveEntry (demoHost [] []) [''/proj/src''] [''file:///proj/src/main.ts'']
        (Plain ''./missing.txt'')
      = Inl (Error (''bundleAssetsPlugin could not locate asset '' @ [CHR 0x22]
                    @ ''./missing.txt'' @ [CHR 0x22] @ ''.'' @ [CHR 0x0A]
                    @ ''Checked: /proj/missing.txt, /proj/src/missing.txt'' @ [CHR 0x0A]
                    @ ''Resolver errors: ResolveMessage: Cannot find module ./missing.txt; ''
                    @ ''ResolveMessage: Cannot find module ./missing.txt''))"
proof -
  let ?h = "demoHost [] []"
  let ?s = "resolveChain ?h [''/proj/src''] [''file:///proj/src/main.ts'']
              (specifierOf (Plain ''./missing.txt''))"
  have n: "normalizeNonEmpty ?h" by (rule demoHost_normalizeNonEmpty)
  have a: "attempted ?s = [''/proj/missing.txt'', ''/proj/src/missing.txt'']"
    by (simp add: resolve_eval)
  have e: "resolutionErrors ?s
           = [''ResolveMessage: Cannot find module ./missing.txt'',
              ''ResolveMessage: Cannot find module ./missing.txt'']"
    by (simp add: resolve_eval)
  have u: "unset (sourcePath ?s)"
    by (simp add: resolve_eval)
  from notFound_lists_every_attempt [OF n u] n u a e show ?thesis
    by simp
qed

text \<open>
  C10. A plain string \<open>s\<close> is processed as the object with specifier \<open>s\<close>, no target name
  and no (or an empty list of) runtime keys: the same resolved asset or the same error,
  hence the same \<open>relativePath\<close> and the same manifest entry with its keys; and so in any
  position of the asset list.
\<close>

theorem plain_string_is_bare_object:
  "resolveEntry h dirs parents (Plain s) = resolveEntry h dirs parents (Obj s None (Some []))
   \<and> resolveEntry h dirs parents (Plain s) = resolveEntry h dirs parents (Obj s None None)
   \<and> map_sum id manifestEntryOf (resolveEntry h dirs parents (Plain s))
       = map_sum id manifestEntryOf (resolveEntry h dirs parents (Obj s None (Some [])))
   \<and> resolveAssets h dirs parents (before @ Plain s # after)
       = resolveAssets h dirs parents (before @ Obj s None (Some []) # after)"
proof -
  have a: "resolveEntry h dirs parents (Plain s)
           = resolveEntry h dirs parents (Obj s None (Some []))"
    by (simp add: resolveEntry_def Let_def)
  have b: "resolveEntry h dirs parents (Plain s) = resolveEntry h dirs parents (Obj s None None)"
    by (simp add: resolveEntry_def Let_def)
  have c: "resolveAssets h dirs parents (before @ Plain s # after)
           = resolveAssets h dirs parents (before @ Obj s None (Some []) # after)"
    by (induction before) (auto simp: a split: sum.splits)
  from a b c show ?thesis by simp
qed

text \<open>C10, an instance.\<close>

theorem plain_string_is_bare_object_witness:
  "resolveEntry (demoHost [''/proj/logo.png''] []) [] [] (Plain ''./logo.png'')
     = Inr \<lparr>ra_specifier = ''./logo.png'', ra_sourcePath = ''/proj/logo.png'',
            ra_sourceUrl = ''file:///proj/logo.png'',
            ra_relativePath = ''logo.png'', ra_runtimeKeys = []\<rparr>
   \<and> resolveEntry (demoHost [''/proj/logo.png''] []) [] [] (Obj ''./logo.png'' None (Some []))
     = Inr \<lparr>ra_specifier = ''./logo.png'', ra_sourcePath = ''/proj/logo.png'',
            ra_sourceUrl = ''file:///proj/logo.png'',
            ra_relativePath = ''logo.png'', ra_runtimeKeys = []\<rparr>"
proof -
  have r: "resolveEntry (demoHost [''/proj/logo.png''] []) [] [] (Plain ''./logo.png'')
           = Inr \<lparr>ra_specifier = ''./logo.png'', ra_sourcePath = ''/proj/logo.png'',
                  ra_sourceUrl = ''file:///proj/logo.png'',
                  ra_relativePath = ''logo.png'', ra_runtimeKeys = []\<rparr>"
    by (simp add: resolve_eval entry_eval)
  from plain_string_is_bare_object
         [of "demoHost [''/proj/logo.png''] []" "[]" "[]" "''./logo.png''" "[]" "[]"] r
  show ?thesis by simp
qed

section \<open>The claims about the injected block\<close>

text \<open>
  C9. \<open>registerKey\<close> with a non-empty key registers the key and its other forms, each
  with the same value unless the table already has it (first write wins): for a \<open>file://\<close>
  key its path (when \<open>fileURLToPath\<close> returns one); for a key under \<open>/$bunfs/root/\<close> the
  URL \<open>file://\<close> followed by the key; for another absolute key its URL (when
  \<open>pathToFileURL\<close> returns one); for a key that starts with \<open>./\<close> or \<open>../\<close> the path
  resolved against the run-time directory and the URL of that path; for a key that starts
  with \<open>./\<close> also the two forms under \<open>$bunfs\<close>. No other key of the table changes.
\<close>

theorem registerKey_variants:
  assumes "key \<noteq> []"
  shows "registeredAs ov (registerKey h key v ov) key v
     \<and> (startsWith key ''file://'' \<longrightarrow>
          (\<forall>p. rt_fileURLToPath h key = Inr p \<and> p \<noteq> []
               \<longrightarrow> registeredAs ov (registerKey h key v ov) p v))
     \<and> (startsWith key ''/$bunfs/root/'' \<longrightarrow>
          registeredAs ov (registerKey h key v ov) (''file://'' @ key) v)
     \<and> (rt_isAbsolute h key \<and> \<not> startsWith key ''file://''
          \<and> \<not> startsWith key ''/$bunfs/root/'' \<longrightarrow>
          (\<forall>href. rt_pathToFileURL h key = Inr href \<and> href \<noteq> []
               \<longrightarrow> registeredAs ov (registerKey h key v ov) href v))
     \<and> ((startsWith key ''./'' \<or> startsWith key ''../'') \<and> \<not> rt_isAbsolute h key \<longrightarrow>
          (rt_resolve h (runtimeDir h) key \<noteq> []
             \<longrightarrow> registeredAs ov (registerKey h key v ov) (rt_resolve h (runtimeDir h) key) v)
          \<and> (\<forall>href. rt_pathToFileURL h (rt_resolve h (runtimeDir h) key) = Inr href
                    \<and> href \<noteq> []
               \<longrightarrow> registeredAs ov (registerKey h key v ov) href v))
     \<and> (startsWith key ''./'' \<and> \<not> rt_isAbsolute h key \<longrightarrow>
          registeredAs ov (registerKey h key v ov) (''/$bunfs/root/'' @ drop 2 key) v
          \<and> registeredAs ov (registerKey h key v ov) (''file:///$bunfs/root/'' @ drop 2 key) v)
     \<and> (\<forall>x. x \<notin> set (keyVariants h key)
            \<longrightarrow> map_of (registerKey h key v ov) x = map_of ov x)"
proof -
  let ?R = "registerKey h key v ov"
  have ob: "offeredBy h key = keyVariants h key"
    using assms by (simp add: offeredBy_def)
  have reg: "x \<in> set (keyVariants h key) \<Longrightarrow> registeredAs ov ?R x v" for x
    using registeredAs_member [of x h key ov v] ob by simp
  have c1: "registeredAs ov ?R key v"
    using registeredAs_member [OF key_in_offeredBy [OF assms]] .
  have c2: "registeredAs ov ?R p v"
    if "startsWith key ''file://''" "rt_fileURLToPath h key = Inr p" "p \<noteq> []" for p
    using that by (intro reg) (simp add: keyVariants_def addVariant_def)
  have nf: "\<not> startsWith key ''file://''" if "hd key = CHR ''/'' \<or> hd key = CHR ''.''"
    using that assms by (cases key) (auto simp: startsWith_def)
  have hb: "hd key = CHR ''/''" if "startsWith key ''/$bunfs/root/''"
    using that by (cases key) (auto simp: startsWith_def)
  have hr: "hd key = CHR ''.''" if "startsWith key ''./'' \<or> startsWith key ''../''"
    using that by (cases key) (auto simp: startsWith_def)
  have nb: "\<not> startsWith key ''/$bunfs/root/''" if "startsWith key ''./'' \<or> startsWith key ''../''"
    using hr [OF that] hb by auto
  have c3: "registeredAs ov ?R (''file://'' @ key) v" if "startsWith key ''/$bunfs/root/''"
    using that nf hb by (intro reg) (simp add: keyVariants_def addVariant_def)
  have c4: "registeredAs ov ?R href v"
    if "rt_isAbsolute h key" "\<not> startsWith key ''file://''"
       "\<not> startsWith key ''/$bunfs/root/''" "rt_pathToFileURL h key = Inr href" "href \<noteq> []"
    for href
    using that by (intro reg) (simp add: keyVariants_def addVariant_def)
  have c5a: "registeredAs ov ?R (rt_resolve h (runtimeDir h) key) v"
    if "startsWith key ''./'' \<or> startsWith key ''../''" "\<not> rt_isAbsolute h key"
       "rt_resolve h (runtimeDir h) key \<noteq> []"
    using that nf hr nb
    by (intro reg) (auto simp: keyVariants_def addVariant_def Let_def split: sum.splits)
  have c5b: "registeredAs ov ?R href v"
    if "startsWith key ''./'' \<or> startsWith key ''../''" "\<not> rt_isAbsolute h key"
       "rt_pathToFileURL h (rt_resolve h (runtimeDir h) key) = Inr href" "href \<noteq> []"
    for href
    using that nf hr nb
    by (intro reg) (auto simp: keyVariants_def addVariant_def Let_def split: sum.splits)
  have c6: "registeredAs ov ?R (''/$bunfs/root/'' @ drop 2 key) v
          \<and> registeredAs ov ?R (''file:///$bunfs/root/'' @ drop 2 key) v"
    if "startsWith key ''./''" "\<not> rt_isAbsolute h key"
    using that nf hr nb
    by (intro conjI reg) (auto simp: keyVariants_def addVariant_def Let_def split: sum.splits)
  have c7: "map_of ?R x = map_of ov x" if "x \<notin> set (keyVariants h key)" for x
    using that ob by (auto simp: map_of_registerKey split: option.splits)
  from c1 c2 c3 c4 c5a c5b c6 c7 show ?thesis by blast
qed


text \<open>C9, an instance: a relative key, one of whose forms is already taken.\<close>

theorem registerKey_variants_witness:
  "''./assets/sample.txt'' \<noteq> []
   \<and> startsWith ''./assets/sample.txt'' ''./''
   \<and> \<not> rt_isAbsolute (demoRuntime ''/app/dist'') ''./assets/sample.txt''
   \<and> registerKey (demoRuntime ''/app/dist'') ''./assets/sample.txt'' ''/app/dist/static/sample.txt''
        [(''/app/dist/assets/sample.txt'', ''/app/dist/other.txt'')]
      = [(''/app/dist/assets/sample.txt'', ''/app/dist/other.txt''),
         (''./assets/sample.txt'', ''/app/dist/static/sample.txt''),
         (''file:///app/dist/assets/sample.txt'', ''/app/dist/static/sample.txt''),
         (''/$bunfs/root/assets/sample.txt'', ''/app/dist/static/sample.txt''),
         (''file:///$bunfs/root/assets/sample.txt'', ''/app/dist/static/sample.txt'')]
   \<and> registeredAs [(''/app/dist/assets/sample.txt'', ''/app/dist/other.txt'')]
        (registerKey (demoRuntime ''/app/dist'') ''./assets/sample.txt''
           ''/app/dist/static/sample.txt''
           [(''/app/dist/assets/sample.txt'', ''/app/dist/other.txt'')])
        ''/$bunfs/root/assets/sample.txt'' ''/app/dist/static/sample.txt''"
proof -
  have k: "''./assets/sample.txt'' \<noteq> []" by simp
  have e: "registerKey (demoRuntime ''/app/dist'') ''./assets/sample.txt''
             ''/app/dist/static/sample.txt''
             [(''/app/dist/assets/sample.txt'', ''/app/dist/other.txt'')]
           = [(''/app/dist/assets/sample.txt'', ''/app/dist/other.txt''),
              (''./assets/sample.txt'', ''/app/dist/static/sample.txt''),
              (''file:///app/dist/assets/sample.txt'', ''/app/dist/static/sample.txt''),
              (''/$bunfs/root/assets/sample.txt'', ''/app/dist/static/sample.txt''),
              (''file:///$bunfs/root/assets/sample.txt'', ''/app/dist/static/sample.txt'')]"
    by (simp add: runtime_eval)
  have s: "startsWith ''./assets/sample.txt'' ''./''" by (simp add: startsWith_def)
  have a: "\<not> rt_isAbsolute (demoRuntime ''/app/dist'') ''./assets/sample.txt''"
    by (simp add: demoRuntime_def startsWith_def)
  from registerKey_variants [OF k, of "[(''/app/dist/assets/sample.txt'', ''/app/dist/other.txt'')]"
         "demoRuntime ''/app/dist''" "''/app/dist/static/sample.txt''"] s a
  have "registeredAs [(''/app/dist/assets/sample.txt'', ''/app/dist/other.txt'')]
          (registerKey (demoRuntime ''/app/dist'') ''./assets/sample.txt''
             ''/app/dist/static/sample.txt''
             [(''/app/dist/assets/sample.txt'', ''/app/dist/other.txt'')])
          (''/$bunfs/root/'' @ drop 2 ''./assets/sample.txt'') ''/app/dist/static/sample.txt''"
    by blast
  with k e s a show ?thesis by simp
qed



text \<open>
  C6. The merge of a block reuses the table that is there and removes no key, and every
  entry whose key the block does not register keeps its value.
\<close>

theorem merge_keeps_unrelated_entries:
  "(map_of ov k = None \<longrightarrow>
      mergeOverrides current ov k = (case current of Some t \<Rightarrow> t k | None \<Rightarrow> None))
   \<and> (case current of Some t \<Rightarrow> dom t \<subseteq> dom (mergeOverrides current ov) | None \<Rightarrow> True)
   \<and> (\<exists>t. globalTable (runBlock h m entries rt) = Some t
          \<and> (case globalTable rt of Some t0 \<Rightarrow> dom t0 \<subseteq> dom t | None \<Rightarrow> True)
          \<and> (map_of (registerEntries h (bundleOutputPath h) entries []) k = None
               \<longrightarrow> t k = lookupGlobal rt k))"
proof -
  have a: "map_of ov k = None \<longrightarrow>
           mergeOverrides current ov k = (case current of Some t \<Rightarrow> t k | None \<Rightarrow> None)"
    for current ov
    by (simp add: mergeOverrides_apply)
  have b: "(case current of Some t \<Rightarrow> dom t \<subseteq> dom (mergeOverrides current ov) | None \<Rightarrow> True)"
    for current ov
    by (auto simp: mergeOverrides_apply split: option.splits)
  have c: "\<exists>t. globalTable (runBlock h m entries rt) = Some t
             \<and> (case globalTable rt of Some t0 \<Rightarrow> dom t0 \<subseteq> dom t | None \<Rightarrow> True)
             \<and> (map_of (registerEntries h (bundleOutputPath h) entries []) k = None
                  \<longrightarrow> t k = lookupGlobal rt k)"
    using b [of "globalTable rt" "registerEntries h (bundleOutputPath h) entries []"]
          a [of "registerEntries h (bundleOutputPath h) entries []" "globalTable rt"]
    by (simp add: runBlock_def Let_def globalTable_installResolvers lookupGlobal_def)
  from a b c show ?thesis by blast
qed

text \<open>C6, an instance: an old entry survives the merge of another key.\<close>

theorem merge_keeps_unrelated_entries_witness:
  "map_of [(''new'', ''/b/dist/new.txt'')] ''old'' = None
   \<and> mergeOverrides (Some [''old'' \<mapsto> JString ''/a/dist/old.txt'']) [(''new'', ''/b/dist/new.txt'')]
        ''old''
      = Some (JString ''/a/dist/old.txt'')"
  using merge_keeps_unrelated_entries
          [of "[(''new'', ''/b/dist/new.txt'')]" "''old''"
              "Some [''old'' \<mapsto> JString ''/a/dist/old.txt'']"]
  by simp

text \<open>
  C6, a key in both: two bundles in one process, in \<open>/a/dist\<close> and \<open>/b/dist\<close>, both with
  the key \<open>logo\<close>. The second block replaces the value the first one stored.
\<close>

theorem second_block_replaces_value:
  "lookupGlobal
      (runBlock (demoRuntime ''/a/dist'') 0
         [\<lparr>me_specifier = ''logo'', me_relativePath = ''logo.png'', me_keys = [''logo'']\<rparr>]
         freshProcess)
      ''logo''
     = Some (JString ''/a/dist/logo.png'')
   \<and> lookupGlobal
      (runBlock (demoRuntime ''/b/dist'') 1
         [\<lparr>me_specifier = ''logo'', me_relativePath = ''logo.png'', me_keys = [''logo'']\<rparr>]
         (runBlock (demoRuntime ''/a/dist'') 0
            [\<lparr>me_specifier = ''logo'', me_relativePath = ''logo.png'', me_keys = [''logo'']\<rparr>]
            freshProcess))
      ''logo''
     = Some (JString ''/b/dist/logo.png'')"
  by (simp add: lookupGlobal_def runBlock_def globalTable_installResolvers mergeOverrides_apply
                runtime_eval)

text \<open>
  C5. The first block sets the installed flag; every later block, whatever its module,
  leaves the flag set and \<open>Bun\<close> and every \<open>import.meta\<close> as the first block left them;
  \<open>installResolvers\<close> does nothing once the flag is set, and nothing in the block clears
  the flag. A block that installs wraps a resolver of \<open>Bun\<close> at most once and leaves it
  marked, and a patch applied twice is a patch applied once, by the marker alone.
\<close>

theorem resolvers_installed_once:
  "resolversInstalled (runBlock h m entries rt)
   \<and> resolversInstalled (runBlocks blocks (runBlock h m entries rt))
   \<and> globalBun (runBlocks blocks (runBlock h m entries rt)) = globalBun (runBlock h m entries rt)
   \<and> importMeta (runBlocks blocks (runBlock h m entries rt))
       = importMeta (runBlock h m entries rt)
   \<and> (resolversInstalled rt \<longrightarrow> installResolvers m rt = rt)
   \<and> installResolvers m' (installResolvers m rt) = installResolvers m rt
   \<and> (\<not> resolversInstalled rt \<longrightarrow>
        markedIfFunction (bunSync (runBlock h m entries rt))
        \<and> markedIfFunction (bunAsync (runBlock h m entries rt))
        \<and> wrappersOf (bunSync (runBlock h m entries rt)) \<le> Suc (wrappersOf (bunSync rt))
        \<and> wrappersOf (bunAsync (runBlock h m entries rt)) \<le> Suc (wrappersOf (bunAsync rt)))
   \<and> patchResolveSync (patchResolveSync rt) = patchResolveSync rt
   \<and> patchResolve (patchResolve rt) = patchResolve rt
   \<and> patchMeta m (patchMeta m rt) = patchMeta m rt"
proof -
  let ?rt1 = "runBlock h m entries rt"
  have i: "resolversInstalled ?rt1" by (rule runBlock_installed)
  note later = runBlocks_after_install [OF i, of blocks]
  have noop: "resolversInstalled rt \<longrightarrow> installResolvers m rt = rt"
    by (simp add: installResolvers_noop)
  have twice: "installResolvers m' (installResolvers m rt) = installResolvers m rt"
    by (rule installResolvers_noop [OF installResolvers_installed])
  have marks: "\<not> resolversInstalled rt \<longrightarrow>
        markedIfFunction (bunSync ?rt1) \<and> markedIfFunction (bunAsync ?rt1)
        \<and> wrappersOf (bunSync ?rt1) \<le> Suc (wrappersOf (bunSync rt))
        \<and> wrappersOf (bunAsync ?rt1) \<le> Suc (wrappersOf (bunAsync rt))"
  proof
    assume n: "\<not> resolversInstalled rt"
    let ?rt0 = "rt\<lparr>globalTable := Some (mergeOverrides (globalTable rt)
                        (registerEntries h (bundleOutputPath h) entries []))\<rparr>"
    have r: "?rt1 = installResolvers m ?rt0" by (simp add: runBlock_def Let_def)
    have n0: "\<not> resolversInstalled ?rt0" using n by simp
    have s: "bunSync ?rt0 = bunSync rt" "bunAsync ?rt0 = bunAsync rt"
      by (simp_all add: bunSync_def bunAsync_def)
    from first_install_marks [OF n0, of m] show
      "markedIfFunction (bunSync ?rt1) \<and> markedIfFunction (bunAsync ?rt1)
        \<and> wrappersOf (bunSync ?rt1) \<le> Suc (wrappersOf (bunSync rt))
        \<and> wrappersOf (bunAsync ?rt1) \<le> Suc (wrappersOf (bunAsync rt))"
      unfolding r s by simp
  qed
  from i later noop twice marks patchResolveSync_idem patchResolve_idem patchMeta_idem
  show ?thesis by blast
qed


text \<open>C5, an instance: three blocks in a fresh process.\<close>

theorem resolvers_installed_once_witness:
  "\<not> resolversInstalled freshProcess
   \<and> bunSync (runBlock (demoRuntime ''/app/dist'') 0 [] freshProcess)
       = Some (PatchedSync (Native 0 False))
   \<and> bunSync (runBlocks [(demoRuntime ''/app/dist'', 1, []), (demoRuntime ''/app/dist'', 2, [])]
                (runBlock (demoRuntime ''/app/dist'') 0 [] freshProcess))
       = Some (PatchedSync (Native 0 False))
   \<and> resolversInstalled
        (runBlocks [(demoRuntime ''/app/dist'', 1, []), (demoRuntime ''/app/dist'', 2, [])]
           (runBlock (demoRuntime ''/app/dist'') 0 [] freshProcess))"
proof -
  let ?h = "demoRuntime ''/app/dist''"
  have n: "\<not> resolversInstalled freshProcess" by (simp add: freshProcess_def)
  have b: "globalBun (runBlock ?h 0 [] freshProcess)
           = Some \<lparr>bun_resolveSync = Some (PatchedSync (Native 0 False)),
                   bun_resolve = Some (PatchedAsync (Native 1 False))\<rparr>"
    by (simp add: runBlock_def installResolvers_def patchMeta_def patchResolve_def
                  patchResolveSync_def freshProcess_def Let_def)
  from resolvers_installed_once [of ?h 0 "[]" freshProcess "[(?h, 1, []), (?h, 2, [])]"] n b
  show ?thesis by (simp add: bunSync_def)
qed

text \<open>
  C8. In the block of a compiled program, the extraction (the cache directory, then for
  each encoded asset its file and its copies under \<open>$bunfs\<close>) never throws, whatever
  \<open>mkdirSync\<close> and \<open>writeFileSync\<close> do: each call sits in a \<open>try\<close> whose \<open>catch\<close> ignores
  the error. The whole block does not throw either.
\<close>

theorem extraction_never_throws:
  "fst (extractAll ops h cacheDir encoded s) = None
   \<and> fst (runCompiledBlock ops h cacheDir m encoded entries p) = None
   \<and> fst (tryIgnore (fs_mkdirSync ops dir) fs) = None
   \<and> fst (tryIgnore (fs_writeFileSync ops file buffer) fs) = None"
proof -
  have a: "fst (extractAll ops h cacheDir encoded s) = None" for s
    by (rule extractAll_ok)
  have b: "fst (runCompiledBlock ops h cacheDir m encoded entries p) = None"
    using a [of "(fst p, [])"]
    by (auto simp: runCompiledBlock_def Let_def split: prod.splits option.splits)
  from a b show ?thesis by (simp add: tryIgnore_ok)
qed


text \<open>C8, an instance: a file system on which every \<open>mkdirSync\<close> and \<open>writeFileSync\<close> throws.\<close>

theorem extraction_never_throws_witness:
  "fst (fs_mkdirSync failingFs ''/tmp/cache/k3'' []) = Some ''EACCES: permission denied, mkdir''
   \<and> fst (fs_writeFileSync failingFs ''/tmp/cache/k3/a.txt'' ''aGk='' [])
       = Some ''EACCES: permission denied, open''
   \<and> fst (extractAll failingFs (demoRuntime ''/app'') ''/tmp/cache/k3''
             [\<lparr>me_specifier = ''a.txt'', me_relativePath = ''a.txt'',
               me_keys = [''/$bunfs/root/a.txt''], me_data = ''aGk=''\<rparr>]
             ([], []))
       = None"
  using extraction_never_throws
          [of failingFs "demoRuntime ''/app''" "''/tmp/cache/k3''"
              "[\<lparr>me_specifier = ''a.txt'', me_relativePath = ''a.txt'',
                 me_keys = [''/$bunfs/root/a.txt''], me_data = ''aGk=''\<rparr>]"
              "([], [])"]
  by (simp add: failingFs_def)


text \<open>
  C3. Each of the three patched entry points (\<open>Bun.resolveSync\<close>, \<open>Bun.resolve\<close>,
  \<open>import.meta.resolve\<close>) first looks the specifier up with \<open>findOverride\<close>; on a hit it
  returns the override (\<open>Bun.resolve\<close> as \<open>Promise.resolve\<close> of it) and the world is
  untouched, so the original was not called. On a miss it calls the original. When the
  original returns a value, \<open>applyOverride\<close> looks the specifier up again in the table
  as it is then and returns that override if there is one; else the override of the
  returned value if that value is a string that \<open>findOverride\<close> finds; else the returned
  value unchanged. When the original throws, the specifier is looked up once more and the
  error is thrown again only on a miss. For a thenable the two asynchronous wrappers
  return \<open>result.then(...).catch(...)\<close>, which settles by the same two rules, read from
  the table at the moment the callback runs. \<open>findOverride\<close> returns the table's value
  for a non-empty key the table owns.
\<close>

theorem patched_resolver_order:
  fixes tableOf :: "'w \<Rightarrow> table option" and original :: "'w resolver"
  shows
   "(isString (findOverride h (tableOf w) specifier) \<longrightarrow>
       patchedResolveSync h tableOf original specifier options w
         = (Inr (findOverride h (tableOf w) specifier), w)
     \<and> patchedAsync h tableOf original specifier options w
         = (Inr (JResolved (findOverride h (tableOf w) specifier)), w)
     \<and> patchedMetaResolve h tableOf original specifier options w
         = (Inr (findOverride h (tableOf w) specifier), w))
  \<and> (\<not> isString (findOverride h (tableOf w) specifier)
      \<and> original specifier options w = (Inr result, w1) \<longrightarrow>
       patchedResolveSync h tableOf original specifier options w
         = (Inr (applyOverride h (tableOf w1) specifier result), w1)
     \<and> (\<not> isThenable result \<longrightarrow>
          patchedAsync h tableOf original specifier options w
            = (Inr (applyOverride h (tableOf w1) specifier result), w1)
        \<and> patchedMetaResolve h tableOf original specifier options w
            = (Inr (applyOverride h (tableOf w1) specifier result), w1))
     \<and> (isThenable result \<longrightarrow>
          patchedAsync h tableOf original specifier options w
            = (Inr (JThenCatch specifier result), w1)
        \<and> patchedMetaResolve h tableOf original specifier options w
            = (Inr (JThenCatch specifier result), w1)))
  \<and> (\<not> isString (findOverride h (tableOf w) specifier)
      \<and> original specifier options w = (Inl err, w1) \<longrightarrow>
       patchedResolveSync h tableOf original specifier options w
         = (if isString (findOverride h (tableOf w1) specifier)
            then (Inr (findOverride h (tableOf w1) specifier), w1) else (Inl err, w1))
     \<and> patchedAsync h tableOf original specifier options w
         = (if isString (findOverride h (tableOf w1) specifier)
            then (Inr (findOverride h (tableOf w1) specifier), w1) else (Inl err, w1))
     \<and> patchedMetaResolve h tableOf original specifier options w
         = (if isString (findOverride h (tableOf w1) specifier)
            then (Inr (findOverride h (tableOf w1) specifier), w1) else (Inl err, w1)))
  \<and> applyOverride h g specifier result
       = (if isString (findOverride h g specifier) then findOverride h g specifier
          else if isString result \<and> isString (findOverride h g result)
          then findOverride h g result
          else result)
  \<and> settle h host (g # later) (JThenCatch specifier p)
       = (case settle h host later p of
            None \<Rightarrow> None
          | Some (fulfilled, v) \<Rightarrow>
              Some (if fulfilled then (True, applyOverride h g specifier v)
                    else if isString (findOverride h g specifier)
                    then (True, findOverride h g specifier)
                    else (False, v)))
  \<and> settle h host later (JResolved result) = Some (True, result)
  \<and> settle h host later (JPromise n) = host n
  \<and> (\<forall>t k v. t k = Some v \<and> k \<noteq> [] \<longrightarrow> findOverride h (Some t) (JString k) = v)"
proof -
  note defs = patchedResolveSync_def patchedAsync_def patchedMetaResolve_def Let_def
  have a: "isString (findOverride h (tableOf w) specifier) \<longrightarrow>
       patchedResolveSync h tableOf original specifier options w
         = (Inr (findOverride h (tableOf w) specifier), w)
     \<and> patchedAsync h tableOf original specifier options w
         = (Inr (JResolved (findOverride h (tableOf w) specifier)), w)
     \<and> patchedMetaResolve h tableOf original specifier options w
         = (Inr (findOverride h (tableOf w) specifier), w)"
    by (simp add: defs)
  have b: "\<not> isString (findOverride h (tableOf w) specifier)
      \<and> original specifier options w = (Inr result, w1) \<longrightarrow>
       patchedResolveSync h tableOf original specifier options w
         = (Inr (applyOverride h (tableOf w1) specifier result), w1)
     \<and> (\<not> isThenable result \<longrightarrow>
          patchedAsync h tableOf original specifier options w
            = (Inr (applyOverride h (tableOf w1) specifier result), w1)
        \<and> patchedMetaResolve h tableOf original specifier options w
            = (Inr (applyOverride h (tableOf w1) specifier result), w1))
     \<and> (isThenable result \<longrightarrow>
          patchedAsync h tableOf original specifier options w
            = (Inr (JThenCatch specifier result), w1)
        \<and> patchedMetaResolve h tableOf original specifier options w
            = (Inr (JThenCatch specifier result), w1))"
    by (simp add: defs)
  have c: "\<not> isString (findOverride h (tableOf w) specifier)
      \<and> original specifier options w = (Inl err, w1) \<longrightarrow>
       patchedResolveSync h tableOf original specifier options w
         = (if isString (findOverride h (tableOf w1) specifier)
            then (Inr (findOverride h (tableOf w1) specifier), w1) else (Inl err, w1))
     \<and> patchedAsync h tableOf original specifier options w
         = (if isString (findOverride h (tableOf w1) specifier)
            then (Inr (findOverride h (tableOf w1) specifier), w1) else (Inl err, w1))
     \<and> patchedMetaResolve h tableOf original specifier options w
         = (if isString (findOverride h (tableOf w1) specifier)
            then (Inr (findOverride h (tableOf w1) specifier), w1) else (Inl err, w1))"
    by (simp add: defs)
  have d: "applyOverride h g specifier result
       = (if isString (findOverride h g specifier) then findOverride h g specifier
          else if isString result \<and> isString (findOverride h g result)
          then findOverride h g result
          else result)"
    by (rule applyOverride_explicit)
  have e: "settle h host (g # later) (JThenCatch specifier p)
       = (case settle h host later p of
            None \<Rightarrow> None
          | Some (fulfilled, v) \<Rightarrow>
              Some (if fulfilled then (True, applyOverride h g specifier v)
                    else if isString (findOverride h g specifier)
                    then (True, findOverride h g specifier)
                    else (False, v)))"
    by (simp add: thenApplyCatch_def Let_def split: option.splits prod.splits)
  have f: "settle h host later (JResolved result) = Some (True, result)"
    "settle h host later (JPromise n) = host n"
    by simp_all
  have k: "\<forall>t k v. t k = Some v \<and> k \<noteq> [] \<longrightarrow> findOverride h (Some t) (JString k) = v"
    by (simp add: findOverride_own)
  from a b c d e f k show ?thesis by blast
qed

text \<open>
  C3, an instance: with \<open>./a.txt\<close> in the table the original is not called (the counter
  stays at 0); for \<open>pkg-b\<close>, which is not in the table, the original's answer
  \<open>/src/b.txt\<close> is a key and its override is returned; when the original throws for
  \<open>pkg-c\<close>, the error is thrown again; a promise for \<open>pkg-b\<close> that fulfils with
  \<open>/src/b.txt\<close> settles with the override.
\<close>

theorem patched_resolver_order_witness:
  "isString (findOverride (demoRuntime ''/app/dist'')
               (fst (Some [''./a.txt'' \<mapsto> JString ''/app/dist/a.txt'',
                           ''/src/b.txt'' \<mapsto> JString ''/app/dist/b.txt''], 0::nat))
               (JString ''./a.txt''))
   \<and> patchedResolveSync (demoRuntime ''/app/dist'') fst
        (countingResolver (Inr (JString ''/src/a.txt''))) (JString ''./a.txt'') JUndefined
        (Some [''./a.txt'' \<mapsto> JString ''/app/dist/a.txt'',
               ''/src/b.txt'' \<mapsto> JString ''/app/dist/b.txt''], 0)
      = (Inr (JString ''/app/dist/a.txt''),
         (Some [''./a.txt'' \<mapsto> JString ''/app/dist/a.txt'',
                ''/src/b.txt'' \<mapsto> JString ''/app/dist/b.txt''], 0))
   \<and> patchedResolveSync (demoRuntime ''/app/dist'') fst
        (countingResolver (Inr (JString ''/src/b.txt''))) (JString ''pkg-b'') JUndefined
        (Some [''./a.txt'' \<mapsto> JString ''/app/dist/a.txt'',
               ''/src/b.txt'' \<mapsto> JString ''/app/dist/b.txt''], 0)
      = (Inr (JString ''/app/dist/b.txt''),
         (Some [''./a.txt'' \<mapsto> JString ''/app/dist/a.txt'',
                ''/src/b.txt'' \<mapsto> JString ''/app/dist/b.txt''], 1))
   \<and> patchedResolveSync (demoRuntime ''/app/dist'') fst
        (countingResolver (Inl (JString ''ResolveMessage: Cannot find module pkg-c'')))
        (JString ''pkg-c'') JUndefined
        (Some [''./a.txt'' \<mapsto> JString ''/app/dist/a.txt'',
               ''/src/b.txt'' \<mapsto> JString ''/app/dist/b.txt''], 0)
      = (Inl (JString ''ResolveMessage: Cannot find module pkg-c''),
         (Some [''./a.txt'' \<mapsto> JString ''/app/dist/a.txt'',
                ''/src/b.txt'' \<mapsto> JString ''/app/dist/b.txt''], 1))
   \<and> settle (demoRuntime ''/app/dist'') (\<lambda>n. Some (True, JString ''/src/b.txt''))
        [Some [''./a.txt'' \<mapsto> JString ''/app/dist/a.txt'',
               ''/src/b.txt'' \<mapsto> JString ''/app/dist/b.txt'']]
        (JThenCatch (JString ''pkg-b'') (JPromise 0))
      = Some (True, JString ''/app/dist/b.txt'')"
proof -
  let ?t = "[''./a.txt'' \<mapsto> JString ''/app/dist/a.txt'',
             ''/src/b.txt'' \<mapsto> JString ''/app/dist/b.txt'']"
  let ?w = "(Some ?t, 0::nat)"
  let ?h = "demoRuntime ''/app/dist''"
  have f: "findOverride ?h (fst ?w) (JString ''./a.txt'') = JString ''/app/dist/a.txt''"
    by (simp add: findOverride_def hasOwnGet_def)
  have hit: "patchedResolveSync ?h fst (countingResolver (Inr (JString ''/src/a.txt'')))
               (JString ''./a.txt'') JUndefined ?w
             = (Inr (JString ''/app/dist/a.txt''), ?w)"
    using patched_resolver_order
            [where h = ?h and tableOf = fst and w = ?w and specifier = "JString ''./a.txt''"
               and original = "countingResolver (Inr (JString ''/src/a.txt''))"
               and options = JUndefined]
          f
    by simp
  have miss: "patchedResolveSync ?h fst (countingResolver (Inr (JString ''/src/b.txt'')))
                (JString ''pkg-b'') JUndefined ?w
              = (Inr (JString ''/app/dist/b.txt''), (Some ?t, 1))"
    by (simp add: lookup_eval)
  have thrown: "patchedResolveSync ?h fst
                  (countingResolver (Inl (JString ''ResolveMessage: Cannot find module pkg-c'')))
                  (JString ''pkg-c'') JUndefined ?w
                = (Inl (JString ''ResolveMessage: Cannot find module pkg-c''), (Some ?t, 1))"
    by (simp add: lookup_eval)
  have settled: "settle ?h (\<lambda>n. Some (True, JString ''/src/b.txt'')) [Some ?t]
                   (JThenCatch (JString ''pkg-b'') (JPromise 0))
                 = Some (True, JString ''/app/dist/b.txt'')"
    by (simp add: lookup_eval)
  from f hit miss thrown settled show ?thesis by simp
qed

text \<open>
  C3, the second lookup of the specifier: an original that stores \<open>pkg-new\<close> in the
  table while it resolves and returns \<open>/src/new.txt\<close>, which is no key. The wrapper
  returns the override of \<open>pkg-new\<close>; a wrapper that looked up only the returned value
  (\<open>patchedAsClaimed\<close>) would return \<open>/src/new.txt\<close> unchanged. Likewise a promise
  returned while the table is empty settles with the override when \<open>pkg-new\<close> is in the
  table at that moment.
\<close>

theorem specifier_looked_up_again:
  "fst (patchedResolveSync (demoRuntime ''/app/dist'') fst
          (registeringResolver ''pkg-new'' (JString ''/app/dist/new.txt'') (JString ''/src/new.txt''))
          (JString ''pkg-new'') JUndefined (Some Map.empty, 0))
     = Inr (JString ''/app/dist/new.txt'')
   \<and> fst (patchedAsClaimed (demoRuntime ''/app/dist'') fst
          (registeringResolver ''pkg-new'' (JString ''/app/dist/new.txt'') (JString ''/src/new.txt''))
          (JString ''pkg-new'') JUndefined (Some Map.empty, 0))
     = Inr (JString ''/src/new.txt'')
   \<and> patchedAsync (demoRuntime ''/app/dist'') fst (countingResolver (Inr (JPromise 0)))
        (JString ''pkg-new'') JUndefined (Some Map.empty, 0)
     = (Inr (JThenCatch (JString ''pkg-new'') (JPromise 0)), (Some Map.empty, 1))
   \<and> settle (demoRuntime ''/app/dist'') (\<lambda>n. Some (True, JString ''/src/new.txt''))
        [Some [''pkg-new'' \<mapsto> JString ''/app/dist/new.txt'']]
        (JThenCatch (JString ''pkg-new'') (JPromise 0))
     = Some (True, JString ''/app/dist/new.txt'')"
  by (simp add: lookup_eval)


end
